theory Spec2Isabelle
  imports Complex_Main "HOL-Library.Word"
begin

unbundle bit_operations_syntax

section \<open>The DHT22 reader of dht22.c\<close>

text \<open>
  The program talks to its environment through wiringPi (pin mode, digital read and write,
  delays), \<open>gettimeofday\<close> and \<open>sched_setscheduler\<close>. The embedding makes that environment a
  record that every function takes and returns:
  \<^item> \<open>line w k\<close> is the level the \<open>k\<close>-th call of \<open>digitalRead\<close> returns and \<open>reads w\<close>
    counts the calls made so far;
  \<^item> \<open>clock w k\<close> is the time the \<open>k\<close>-th call of \<open>gettimeofday\<close> returns and \<open>ticks w\<close>
    counts the calls made so far;
  \<^item> \<open>log w\<close> records the calls that act on the outside (pin mode, writes, delays, the
    message on stderr), the most recent first, each with the number of \<open>digitalRead\<close>
    calls and the number of \<open>gettimeofday\<close> calls made before it: the log orders these
    calls against the reads of the line and of the clock;
  \<^item> \<open>policy w\<close> and \<open>priority w\<close> are the scheduling policy and priority of the thread,
    \<open>privileged w\<close> says whether the thread may take a real-time policy, and \<open>fifo_max w\<close>
    is what \<open>sched_get_priority_max(SCHED_FIFO)\<close> returns;
  \<^item> \<open>setup_status w\<close> is what \<open>wiringPiSetup\<close> returns.
  The two polling loops of \<open>sensorLowHighWait\<close> may run forever on a line that never changes
  under a clock that never passes the deadline, so they are a partial function into
  \<open>option\<close>: \<open>None\<close> is a loop that does not return.
\<close>

subsection \<open>Data\<close>

type_synonym uint8_t = "8 word"

datatype level = LOW | HIGH

datatype pin_mode = INPUT | OUTPUT

datatype sched_policy = SCHED_OTHER | SCHED_FIFO

record timeval =
  tv_sec :: int
  tv_usec :: int

datatype event =
    PinMode int pin_mode
  | DigitalWrite int level
  | Delay nat
  | DelayMicroseconds nat
  | Stderr string

text \<open>
  \<open>At r t e\<close>: the call \<open>e\<close>, made when \<open>r\<close> reads of the line and \<open>t\<close> readings of the
  clock had been made.
\<close>

datatype entry = At (reads_before: nat) (ticks_before: nat) (call: event)

record world =
  line :: "nat \<Rightarrow> level"
  reads :: nat
  clock :: "nat \<Rightarrow> timeval"
  ticks :: nat
  setup_status :: int
  privileged :: bool
  fifo_max :: int
  policy :: sched_policy
  priority :: int
  log :: "entry list"

text \<open>
  \<open>struct sensorOutput\<close>. Its two fields are floating-point numbers in the source; the
  embedding reads them as exact reals, so that a value written 26.4 is the real 26.4 and
  the division by \<open>10.0\<close> is exact. The numerators are integers below 65536 and the
  bounds of the range check are integers, so the comparisons of line 240 come out the
  same on the rounded values.
\<close>

record sensorOutput =
  temperature :: real
  humidity :: real

text \<open>\<open>parseSensorOutput\<close> either ends the process with \<open>exit(EXIT_FAILURE)\<close> or returns.\<close>

datatype outcome = Exit_Failure | Returned sensorOutput

subsection \<open>The macros of sys/time.h\<close>

definition timeradd :: "timeval \<Rightarrow> timeval \<Rightarrow> timeval" where
  "timeradd a b =
     (let sec = tv_sec a + tv_sec b; usec = tv_usec a + tv_usec b
      in if usec \<ge> 1000000 then \<lparr>tv_sec = sec + 1, tv_usec = usec - 1000000\<rparr>
         else \<lparr>tv_sec = sec, tv_usec = usec\<rparr>)"

definition timersub :: "timeval \<Rightarrow> timeval \<Rightarrow> timeval" where
  "timersub a b =
     (let sec = tv_sec a - tv_sec b; usec = tv_usec a - tv_usec b
      in if usec < 0 then \<lparr>tv_sec = sec - 1, tv_usec = usec + 1000000\<rparr>
         else \<lparr>tv_sec = sec, tv_usec = usec\<rparr>)"

text \<open>\<open>timercmp(a, b, >)\<close>.\<close>

definition timercmp_gt :: "timeval \<Rightarrow> timeval \<Rightarrow> bool" where
  "timercmp_gt a b =
     (if tv_sec a = tv_sec b then tv_usec a > tv_usec b else tv_sec a > tv_sec b)"

subsection \<open>The environment's calls\<close>

definition gettimeofday :: "world \<Rightarrow> timeval \<times> world" where
  "gettimeofday w = (clock w (ticks w), w\<lparr>ticks := Suc (ticks w)\<rparr>)"

text \<open>wiringPi's \<open>digitalRead\<close> returns \<open>HIGH\<close> or \<open>LOW\<close>.\<close>

definition digitalRead :: "int \<Rightarrow> world \<Rightarrow> level \<times> world" where
  "digitalRead GPIO w = (line w (reads w), w\<lparr>reads := Suc (reads w)\<rparr>)"

definition pinMode :: "int \<Rightarrow> pin_mode \<Rightarrow> world \<Rightarrow> world" where
  "pinMode GPIO m w = w\<lparr>log := At (reads w) (ticks w) (PinMode GPIO m) # log w\<rparr>"

definition digitalWrite :: "int \<Rightarrow> level \<Rightarrow> world \<Rightarrow> world" where
  "digitalWrite GPIO l w = w\<lparr>log := At (reads w) (ticks w) (DigitalWrite GPIO l) # log w\<rparr>"

definition delay :: "nat \<Rightarrow> world \<Rightarrow> world" where
  "delay ms w = w\<lparr>log := At (reads w) (ticks w) (Delay ms) # log w\<rparr>"

definition delayMicroseconds :: "nat \<Rightarrow> world \<Rightarrow> world" where
  "delayMicroseconds us w =
     w\<lparr>log := At (reads w) (ticks w) (DelayMicroseconds us) # log w\<rparr>"

text \<open>
  \<open>sched_setscheduler(0, pol, &sched)\<close>, whose return value the program ignores: a thread
  without the privilege is refused the real-time policy and keeps what it had.
\<close>

definition sched_setscheduler :: "sched_policy \<Rightarrow> int \<Rightarrow> world \<Rightarrow> world" where
  "sched_setscheduler pol prio w =
     (if pol = SCHED_FIFO \<and> \<not> privileged w then w
      else w\<lparr>policy := pol, priority := prio\<rparr>)"

subsection \<open>Scheduling priority\<close>

definition setMaximumPriority :: "world \<Rightarrow> world" where
  "setMaximumPriority w = sched_setscheduler SCHED_FIFO (fifo_max w) w"

definition setDefaultPriority :: "world \<Rightarrow> world" where
  "setDefaultPriority w = sched_setscheduler SCHED_OTHER 0 w"

subsection \<open>sensorLowHighWait\<close>

text \<open>
  The two \<open>while\<close> loops of \<open>sensorLowHighWait\<close> differ only in the level they wait on:
  \<open>waitWhile GPIO lv timeUp\<close> polls while the line reads \<open>lv\<close>, and gives up with \<open>False\<close>
  once a clock reading is past \<open>timeUp\<close>.
\<close>

partial_function (option) waitWhile ::
  "int \<Rightarrow> level \<Rightarrow> timeval \<Rightarrow> world \<Rightarrow> (bool \<times> world) option" where
  "waitWhile GPIO lv timeUp w =
     (case digitalRead GPIO w of (l, w1) \<Rightarrow>
        if l = lv then
          (case gettimeofday w1 of (now, w2) \<Rightarrow>
             if timercmp_gt now timeUp then Some (False, w2)
             else waitWhile GPIO lv timeUp w2)
        else Some (True, w1))"

definition sensorLowHighWait :: "int \<Rightarrow> world \<Rightarrow> (bool \<times> world) option" where
  "sensorLowHighWait GPIO w =
     (case gettimeofday w of (now, w1) \<Rightarrow>
        let timeOut = \<lparr>tv_sec = 0, tv_usec = 1000\<rparr>;
            timeUp = timeradd now timeOut
        in (case waitWhile GPIO HIGH timeUp w1 of
              None \<Rightarrow> None
            | Some (ok, w2) \<Rightarrow>
                if \<not> ok then Some (False, w2)
                else (case gettimeofday w2 of (now, w3) \<Rightarrow>
                        (let timeOut = \<lparr>tv_sec = 0, tv_usec = 1000\<rparr>;
                             timeUp = timeradd now timeOut
                         in waitWhile GPIO LOW timeUp w3))))"

subsection \<open>retrieveByte\<close>

function retrieveByte_loop :: "int \<Rightarrow> nat \<Rightarrow> uint8_t \<Rightarrow> world \<Rightarrow> (uint8_t \<times> world) option" where
  "retrieveByte_loop GPIO bit_i result w =
     (if bit_i < 8 then
        (case sensorLowHighWait GPIO w of
           None \<Rightarrow> None
         | Some (ok, w1) \<Rightarrow>
             if \<not> ok then Some (0, w1)
             else (let w2 = delayMicroseconds 30 w1;
                       result1 = push_bit 1 result
                   in (case digitalRead GPIO w2 of (l, w3) \<Rightarrow>
                         retrieveByte_loop GPIO (Suc bit_i)
                           (if l = HIGH then result1 OR 1 else result1) w3)))
      else Some (result, w))"
  by pat_completeness auto
termination
  by (relation "measure (\<lambda>(GPIO, bit_i, result, w). 8 - bit_i)") auto

declare retrieveByte_loop.simps [simp del]

definition retrieveByte :: "int \<Rightarrow> world \<Rightarrow> (uint8_t \<times> world) option" where
  "retrieveByte GPIO w = retrieveByte_loop GPIO 0 0x00 w"

subsection \<open>querySensor\<close>

text \<open>
  The \<open>for\<close> loop over the five bytes. \<open>retrievedBytes\<close> is the local array of five bytes,
  \<open>results\<close> the caller's array of four, \<open>queryChecksum\<close> the \<open>uint8_t\<close> accumulator.
\<close>

function querySensor_loop ::
  "int \<Rightarrow> nat \<Rightarrow> uint8_t list \<Rightarrow> uint8_t list \<Rightarrow> uint8_t \<Rightarrow> world \<Rightarrow>
   ((uint8_t list \<times> uint8_t list \<times> uint8_t) \<times> world) option" where
  "querySensor_loop GPIO byte_i retrievedBytes results queryChecksum w =
     (if byte_i < 5 then
        (case retrieveByte GPIO w of
           None \<Rightarrow> None
         | Some (b, w1) \<Rightarrow>
             (let retrievedBytes1 = retrievedBytes[byte_i := b]
              in if byte_i < 4 then
                   querySensor_loop GPIO (Suc byte_i) retrievedBytes1
                     (results[byte_i := retrievedBytes1 ! byte_i])
                     (queryChecksum + retrievedBytes1 ! byte_i) w1
                 else querySensor_loop GPIO (Suc byte_i) retrievedBytes1 results queryChecksum w1))
      else Some ((retrievedBytes, results, queryChecksum), w))"
  by pat_completeness auto
termination
  by (relation "measure (\<lambda>(GPIO, byte_i, retrievedBytes, results, queryChecksum, w). 5 - byte_i)")
    auto

declare querySensor_loop.simps [simp del]

text \<open>
  \<open>querySensor\<close> returns its \<open>int\<close> as a truth value, together with the caller's array
  \<open>results\<close> as the call leaves it. The local \<open>retrievedBytes\<close> starts uninitialised in the
  source; the loop writes every cell before it is read, and the model starts it at zeros.
\<close>

definition querySensor ::
  "int \<Rightarrow> uint8_t list \<Rightarrow> world \<Rightarrow> ((bool \<times> uint8_t list) \<times> world) option" where
  "querySensor GPIO results w =
     (let w1 = setMaximumPriority w
      in (case gettimeofday w1 of (then_tv, w2) \<Rightarrow>
        (let w3 = pinMode GPIO OUTPUT w2;
             w4 = digitalWrite GPIO LOW w3;
             w5 = delay 10 w4;
             w6 = digitalWrite GPIO HIGH w5;
             w7 = delayMicroseconds 40 w6;
             w8 = pinMode GPIO INPUT w7
         in (case sensorLowHighWait GPIO w8 of
               None \<Rightarrow> None
             | Some (ok, w9) \<Rightarrow>
                 if \<not> ok then Some ((False, results), w9)
                 else
                   (case querySensor_loop GPIO 0 [0, 0, 0, 0, 0] results 0x00 w9 of
                      None \<Rightarrow> None
                    | Some ((retrievedBytes, results1, queryChecksum), w10) \<Rightarrow>
                        (let queryChecksum1 = queryChecksum AND 0xFF
                         in (case gettimeofday w10 of (now, w11) \<Rightarrow>
                           (let took = timersub now then_tv;
                                w12 = setDefaultPriority w11
                            in if tv_sec took \<noteq> 0 \<or> tv_usec took > 16000
                               then Some ((False, results1), w12)
                               else Some ((queryChecksum1 = retrievedBytes ! 4, results1),
                                          w12)))))))))"

subsection \<open>parseSensorOutput\<close>

text \<open>
  The header dht22.h is not among the sources. It declares \<open>struct sensorOutput\<close> and
  defines the four range macros and \<open>SENSOR_NA\<close>. The specification gives the documented
  ranges (-40 to +80 degrees, 0 to 100 percent relative humidity) and no value for
  \<open>SENSOR_NA\<close>, which is therefore a parameter of \<open>parseSensorOutput\<close>.
\<close>

text \<open>Modelled from the spec: the macro \<open>SENSOR_TMP_MIN\<close> of dht22.h, -40 degrees.\<close>

definition SENSOR_TMP_MIN :: real where
  "SENSOR_TMP_MIN = - 40"

text \<open>Modelled from the spec: the macro \<open>SENSOR_TMP_MAX\<close> of dht22.h, +80 degrees.\<close>

definition SENSOR_TMP_MAX :: real where
  "SENSOR_TMP_MAX = 80"

text \<open>Modelled from the spec: the macro \<open>SENSOR_HUM_MIN\<close> of dht22.h, 0 percent.\<close>

definition SENSOR_HUM_MIN :: real where
  "SENSOR_HUM_MIN = 0"

text \<open>Modelled from the spec: the macro \<open>SENSOR_HUM_MAX\<close> of dht22.h, 100 percent.\<close>

definition SENSOR_HUM_MAX :: real where
  "SENSOR_HUM_MAX = 100"

definition QUERYRETRIES :: nat where
  "QUERYRETRIES = 4"

text \<open>
  Lines 231 to 237: both values from the four bytes, then the sign. The bytes are promoted
  to \<open>int\<close> before the multiplication, and the division by \<open>10.0\<close> is taken exactly.
\<close>

definition parseReading :: "uint8_t list \<Rightarrow> sensorOutput" where
  "parseReading sensorData =
     (let result = \<lparr>temperature = real_of_int (uint (sensorData ! 2) * 256 + uint (sensorData ! 3)) / 10,
                     humidity = real_of_int (uint (sensorData ! 0) * 256 + uint (sensorData ! 1)) / 10\<rparr>
      in if (sensorData ! 2) AND 0x80 \<noteq> 0
         then result\<lparr>temperature := temperature result * (- 1)\<rparr>
         else result)"

text \<open>The condition of line 240.\<close>

definition withinCapabilities :: "sensorOutput \<Rightarrow> bool" where
  "withinCapabilities result =
     (temperature result \<ge> SENSOR_TMP_MIN \<and> temperature result \<le> SENSOR_TMP_MAX \<and>
      humidity result \<ge> SENSOR_HUM_MIN \<and> humidity result \<le> SENSOR_HUM_MAX)"

text \<open>
  The \<open>while (queryRetries--)\<close> loop: \<open>queryRetries\<close> counts the attempts that remain and
  the loop ends when it reaches zero.
\<close>

fun parseSensorOutput_loop ::
  "nat \<Rightarrow> int \<Rightarrow> real \<Rightarrow> world \<Rightarrow> (sensorOutput \<times> world) option" where
  "parseSensorOutput_loop 0 GPIO SENSOR_NA w =
     Some (\<lparr>temperature = SENSOR_NA, humidity = SENSOR_NA\<rparr>, w)"
| "parseSensorOutput_loop (Suc queryRetries) GPIO SENSOR_NA w =
     (let sensorData = [0x00, 0x00, 0x00, 0x00]
      in (case querySensor GPIO sensorData w of
            None \<Rightarrow> None
          | Some ((ok, sensorData1), w1) \<Rightarrow>
              if ok then
                (let result = parseReading sensorData1
                 in if withinCapabilities result then Some (result, w1)
                    else parseSensorOutput_loop queryRetries GPIO SENSOR_NA (delay 2000 w1))
              else parseSensorOutput_loop queryRetries GPIO SENSOR_NA (delay 2000 w1)))"

definition wiringPiSetup :: "world \<Rightarrow> int \<times> world" where
  "wiringPiSetup w = (setup_status w, w)"

definition parseSensorOutput :: "int \<Rightarrow> real \<Rightarrow> world \<Rightarrow> (outcome \<times> world) option" where
  "parseSensorOutput GPIO SENSOR_NA w =
     (case wiringPiSetup w of (status, w1) \<Rightarrow>
        if status = - 1
        then Some (Exit_Failure,
               w1\<lparr>log := At (reads w1) (ticks w1)
                               (Stderr (''wiringPi failed to initialize.'' @ [CHR 0x0A])) # log w1\<rparr>)
        else (case parseSensorOutput_loop (QUERYRETRIES + 1) GPIO SENSOR_NA w1 of
                None \<Rightarrow> None
              | Some (result, w2) \<Rightarrow> Some (Returned result, w2)))"

section \<open>Vocabulary for the properties\<close>

subsection \<open>Counting the environment's calls\<close>

text \<open>
  \<open>skip r t w\<close> is the world \<open>w\<close> after \<open>r\<close> further calls of \<open>digitalRead\<close> and \<open>t\<close>
  further calls of \<open>gettimeofday\<close>.
\<close>

definition skip :: "nat \<Rightarrow> nat \<Rightarrow> world \<Rightarrow> world" where
  "skip r t w = w\<lparr>reads := reads w + r, ticks := ticks w + t\<rparr>"

text \<open>
  \<open>polled lv timeUp w n\<close>: from \<open>w\<close> on, the line reads \<open>lv\<close> at \<open>n\<close> polls in a row and
  another level at the next one, and none of the \<open>n\<close> clock readings taken between the
  polls is past \<open>timeUp\<close>.
\<close>

definition polled :: "level \<Rightarrow> timeval \<Rightarrow> world \<Rightarrow> nat \<Rightarrow> bool" where
  "polled lv timeUp w n =
     ((\<forall>i<n. line w (reads w + i) = lv \<and> \<not> timercmp_gt (clock w (ticks w + i)) timeUp) \<and>
      line w (reads w + n) \<noteq> lv)"

text \<open>
  \<open>subwait lv w n\<close>: the sub-wait that starts in \<open>w\<close> reads the clock, sets its deadline
  1000 microseconds after that reading, and sees the line leave \<open>lv\<close> at poll \<open>n\<close> with
  every clock reading before that within the deadline.
\<close>

definition subwait :: "level \<Rightarrow> world \<Rightarrow> nat \<Rightarrow> bool" where
  "subwait lv w n =
     polled lv (timeradd (clock w (ticks w)) \<lparr>tv_sec = 0, tv_usec = 1000\<rparr>) (skip 0 1 w) n"

text \<open>The clock passes every deadline, however late the reading it is compared at.\<close>

definition clock_unbounded :: "world \<Rightarrow> bool" where
  "clock_unbounded w = (\<forall>d k. \<exists>j\<ge>k. timercmp_gt (clock w j) d)"

subsection \<open>Bit cells\<close>

text \<open>
  One bit cell as the specification describes it: wait for the low-to-high transition;
  if the wait fails the cell yields nothing, otherwise wait 30 microseconds and sample
  the line.
\<close>

definition bitCell :: "int \<Rightarrow> world \<Rightarrow> (level option \<times> world) option" where
  "bitCell GPIO w =
     (case sensorLowHighWait GPIO w of
        None \<Rightarrow> None
      | Some (ok, w1) \<Rightarrow>
          if ok then (case digitalRead GPIO (delayMicroseconds 30 w1) of (l, w2) \<Rightarrow> Some (Some l, w2))
          else Some (None, w1))"

text \<open>\<open>cells GPIO k w\<close>: \<open>k\<close> bit cells in a row, each sampled, with the levels in order.\<close>

fun cells :: "int \<Rightarrow> nat \<Rightarrow> world \<Rightarrow> (level list \<times> world) option" where
  "cells GPIO 0 w = Some ([], w)"
| "cells GPIO (Suc k) w =
     (case bitCell GPIO w of
        Some (Some l, w1) \<Rightarrow>
          (case cells GPIO k w1 of Some (ls, w2) \<Rightarrow> Some (l # ls, w2) | None \<Rightarrow> None)
      | _ \<Rightarrow> None)"

text \<open>The number a list of levels spells, most significant bit first, \<open>HIGH\<close> for 1.\<close>

fun msb_first :: "level list \<Rightarrow> nat" where
  "msb_first [] = 0"
| "msb_first (l # ls) = (if l = HIGH then 2 ^ length ls else 0) + msb_first ls"

text \<open>Lines 124 to 130: one sampled level shifted into the byte.\<close>

definition shift_in :: "uint8_t \<Rightarrow> level \<Rightarrow> uint8_t" where
  "shift_in r l = (if l = HIGH then push_bit 1 r OR 1 else push_bit 1 r)"

subsection \<open>Sessions and attempts\<close>

text \<open>
  The world after lines 143 to 160 of \<open>querySensor\<close>: priority raised, first timestamp
  taken, wake sequence driven, pin back in input mode.
\<close>

definition wakeSensor :: "int \<Rightarrow> world \<Rightarrow> world" where
  "wakeSensor GPIO w =
     pinMode GPIO INPUT (delayMicroseconds 40 (digitalWrite GPIO HIGH (delay 10
       (digitalWrite GPIO LOW (pinMode GPIO OUTPUT (snd (gettimeofday (setMaximumPriority w))))))))"

text \<open>
  Every session switches the pin to output mode exactly once, at its start, so the
  sessions a world has seen are the \<open>PinMode GPIO OUTPUT\<close> calls of its log.
\<close>

definition attempts :: "int \<Rightarrow> world \<Rightarrow> nat" where
  "attempts GPIO w = count_list (map call (log w)) (PinMode GPIO OUTPUT)"

text \<open>
  \<open>failedRun n GPIO w = Some w'\<close>: \<open>n\<close> attempts in a row from \<open>w\<close>, each a session on a
  cleared array that returns failure or decodes to values outside the documented ranges,
  each followed by the 2000 ms delay, end in \<open>w'\<close>.
\<close>

fun failedRun :: "nat \<Rightarrow> int \<Rightarrow> world \<Rightarrow> world option" where
  "failedRun 0 GPIO w = Some w"
| "failedRun (Suc n) GPIO w =
     (case querySensor GPIO [0x00, 0x00, 0x00, 0x00] w of
        None \<Rightarrow> None
      | Some ((ok, sensorData), w1) \<Rightarrow>
          if ok \<and> withinCapabilities (parseReading sensorData) then None
          else failedRun n GPIO (delay 2000 w1))"

section \<open>Concrete worlds\<close>

text \<open>
  \<open>world_at lin clk r t pol evs\<close> is a privileged process on a board whose setup succeeds,
  with line \<open>lin\<close> and clock \<open>clk\<close>, after \<open>r\<close> reads and \<open>t\<close> clock readings, under policy
  \<open>pol\<close>, with log \<open>evs\<close>.
\<close>

definition world_at ::
  "(nat \<Rightarrow> level) \<Rightarrow> (nat \<Rightarrow> timeval) \<Rightarrow> nat \<Rightarrow> nat \<Rightarrow> sched_policy \<Rightarrow> entry list \<Rightarrow> world" where
  "world_at lin clk r t pol evs =
     \<lparr>line = lin, reads = r, clock = clk, ticks = t,
      setup_status = 0, privileged = True, fifo_max = 99,
      policy = pol, priority = (if pol = SCHED_FIFO then 99 else 0), log = evs\<rparr>"

text \<open>
  What the wake sequence adds to a log when it is driven after \<open>r\<close> reads and \<open>t\<close> clock
  readings, and what the eight bit cells of a byte add when they start after \<open>r\<close> reads
  and \<open>t\<close> clock readings and every wait takes two reads and two clock readings: the
  delay of a cell comes after the two reads of its wait and before its sample.
\<close>

definition wake_log :: "int \<Rightarrow> nat \<Rightarrow> nat \<Rightarrow> entry list \<Rightarrow> entry list" where
  "wake_log GPIO r t evs =
     At r t (PinMode GPIO INPUT) # At r t (DelayMicroseconds 40) #
     At r t (DigitalWrite GPIO HIGH) # At r t (Delay 10) #
     At r t (DigitalWrite GPIO LOW) # At r t (PinMode GPIO OUTPUT) # evs"

definition byte_log :: "nat \<Rightarrow> nat \<Rightarrow> entry list \<Rightarrow> entry list" where
  "byte_log r t evs =
     At (r + 23) (t + 16) (DelayMicroseconds 30) # At (r + 20) (t + 14) (DelayMicroseconds 30) #
     At (r + 17) (t + 12) (DelayMicroseconds 30) # At (r + 14) (t + 10) (DelayMicroseconds 30) #
     At (r + 11) (t + 8) (DelayMicroseconds 30) # At (r + 8) (t + 6) (DelayMicroseconds 30) #
     At (r + 5) (t + 4) (DelayMicroseconds 30) # At (r + 2) (t + 2) (DelayMicroseconds 30) # evs"

text \<open>
  The log of a whole session that starts before any read or clock reading and takes two
  reads per wait.
\<close>

definition session_log :: "int \<Rightarrow> entry list \<Rightarrow> entry list" where
  "session_log GPIO evs =
     byte_log 98 67 (byte_log 74 51 (byte_log 50 35 (byte_log 26 19 (byte_log 2 3
       (wake_log GPIO 0 1 evs)))))"

text \<open>
  The log of five failed attempts on a sensor that never answers: each attempt is a wake
  sequence, one read, and the 2000 ms delay.
\<close>

definition stuck_log :: "int \<Rightarrow> entry list" where
  "stuck_log GPIO =
     At 5 15 (Delay 2000) # wake_log GPIO 4 13
       (At 4 12 (Delay 2000) # wake_log GPIO 3 10
         (At 3 9 (Delay 2000) # wake_log GPIO 2 7
           (At 2 6 (Delay 2000) # wake_log GPIO 1 4
             (At 1 3 (Delay 2000) # wake_log GPIO 0 1 []))))"

text \<open>
  A sensor that never answers: the line stays high, and the clock moves one second between
  readings, so every wait times out at its first check.
\<close>

definition stuck_line :: "nat \<Rightarrow> level" where
  "stuck_line k = HIGH"

definition slow_clock :: "nat \<Rightarrow> timeval" where
  "slow_clock k = \<lparr>tv_sec = 1500000000 + int k, tv_usec = 0\<rparr>"

definition stuck_world :: world where
  "stuck_world = world_at stuck_line slow_clock 0 0 SCHED_OTHER []"

text \<open>
  A sensor that sends the payload 0x02, 0x8C, 0x01, 0x08, 0x97: the acknowledgement is
  read as low then high, and each bit cell as low, high and then the bit. The clock puts
  the first reading at 0 and reading \<open>k\<close> at 10040 + 50 k microseconds, so the session,
  which ends at reading 83, takes 14190 microseconds. \<open>late_clock\<close> is the same session
  under a slower clock: 18340 microseconds.
\<close>

definition payload_levels :: "level list" where
  "payload_levels =
     [LOW, LOW, LOW, LOW, LOW, LOW, HIGH, LOW,
      HIGH, LOW, LOW, LOW, HIGH, HIGH, LOW, LOW,
      LOW, LOW, LOW, LOW, LOW, LOW, LOW, HIGH,
      LOW, LOW, LOW, LOW, HIGH, LOW, LOW, LOW,
      HIGH, LOW, LOW, HIGH, LOW, HIGH, HIGH, HIGH]"

definition sensor_line :: "nat \<Rightarrow> level" where
  "sensor_line k =
     (if k = 0 then LOW
      else if k = 1 then HIGH
      else if (k - 2) mod 3 = 0 then LOW
      else if (k - 2) mod 3 = 1 then HIGH
      else if (k - 2) div 3 < 40 then payload_levels ! ((k - 2) div 3) else LOW)"

definition sensor_clock :: "nat \<Rightarrow> timeval" where
  "sensor_clock k =
     \<lparr>tv_sec = 1500000000, tv_usec = (if k = 0 then 0 else 10040 + 50 * int k)\<rparr>"

definition late_clock :: "nat \<Rightarrow> timeval" where
  "late_clock k =
     \<lparr>tv_sec = 1500000000, tv_usec = (if k = 0 then 0 else 10040 + 100 * int k)\<rparr>"

definition sensor_world :: world where
  "sensor_world = world_at sensor_line sensor_clock 0 0 SCHED_OTHER []"

definition late_world :: world where
  "late_world = world_at sensor_line late_clock 0 0 SCHED_OTHER []"

text \<open>
  An acknowledgement that takes a few polls: the line is read high twice, low twice and
  then high, with 20 microseconds between clock readings.
\<close>

definition ack_line :: "nat \<Rightarrow> level" where
  "ack_line k = (if k < 5 then [HIGH, HIGH, LOW, LOW, HIGH] ! k else HIGH)"

definition ack_clock :: "nat \<Rightarrow> timeval" where
  "ack_clock k = \<lparr>tv_sec = 1500000000, tv_usec = 20 * int k\<rparr>"

definition ack_world :: world where
  "ack_world = world_at ack_line ack_clock 0 0 SCHED_OTHER []"

text \<open>A sensor that sends the bits 1 and 0 and then falls silent with the line high.\<close>

definition abort_line :: "nat \<Rightarrow> level" where
  "abort_line k = (if k < 6 then [LOW, HIGH, HIGH, LOW, HIGH, LOW] ! k else HIGH)"

definition abort_world :: world where
  "abort_world = world_at abort_line slow_clock 0 0 SCHED_OTHER []"

section \<open>Lemmas\<close>

subsection \<open>The polling loop and the timed wait\<close>

lemma skip_simps [simp]:
  "line (skip r t w) = line w" "clock (skip r t w) = clock w"
  "reads (skip r t w) = reads w + r" "ticks (skip r t w) = ticks w + t"
  "log (skip r t w) = log w" "policy (skip r t w) = policy w"
  "priority (skip r t w) = priority w" "privileged (skip r t w) = privileged w"
  "fifo_max (skip r t w) = fifo_max w" "setup_status (skip r t w) = setup_status w"
  by (simp_all add: skip_def)

lemma skip_skip [simp]: "skip r t (skip r' t' w) = skip (r' + r) (t' + t) w"
  by (simp add: skip_def add.assoc)

lemma skip_0 [simp]: "skip 0 0 w = w"
  by (simp add: skip_def)

lemma digitalRead_skip: "digitalRead GPIO w = (line w (reads w), skip 1 0 w)"
  by (simp add: digitalRead_def skip_def)

lemma gettimeofday_skip: "gettimeofday w = (clock w (ticks w), skip 0 1 w)"
  by (simp add: gettimeofday_def skip_def)

lemma waitWhile_exit:
  "line w (reads w) \<noteq> lv \<Longrightarrow> waitWhile GPIO lv timeUp w = Some (True, skip 1 0 w)"
  by (subst waitWhile.simps) (simp add: digitalRead_skip)

lemma waitWhile_timeout:
  "line w (reads w) = lv \<Longrightarrow> timercmp_gt (clock w (ticks w)) timeUp \<Longrightarrow>
   waitWhile GPIO lv timeUp w = Some (False, skip 1 1 w)"
  by (subst waitWhile.simps) (simp add: digitalRead_skip gettimeofday_skip)

lemma waitWhile_continue:
  "line w (reads w) = lv \<Longrightarrow> \<not> timercmp_gt (clock w (ticks w)) timeUp \<Longrightarrow>
   waitWhile GPIO lv timeUp w = waitWhile GPIO lv timeUp (skip 1 1 w)"
  by (subst waitWhile.simps) (simp add: digitalRead_skip gettimeofday_skip)

lemma polled_0: "polled lv timeUp w 0 \<longleftrightarrow> line w (reads w) \<noteq> lv"
  by (simp add: polled_def)

lemma polled_Suc:
  "polled lv timeUp w (Suc n) \<longleftrightarrow>
   line w (reads w) = lv \<and> \<not> timercmp_gt (clock w (ticks w)) timeUp \<and>
   polled lv timeUp (skip 1 1 w) n"
proof -
  have "(\<forall>i<Suc n. P i) \<longleftrightarrow> P 0 \<and> (\<forall>i<n. P (Suc i))" for P
    by (metis less_Suc_eq_0_disj)
  then show ?thesis
    by (simp add: polled_def)
qed

lemma waitWhile_polled:
  "polled lv timeUp w n \<Longrightarrow> waitWhile GPIO lv timeUp w = Some (True, skip (Suc n) n w)"
proof (induction n arbitrary: w)
  case 0
  then show ?case by (simp add: polled_0 waitWhile_exit)
next
  case (Suc n)
  then show ?case by (simp add: polled_Suc waitWhile_continue)
qed

lemma waitWhile_True_polled:
  "waitWhile GPIO lv timeUp w = Some y \<Longrightarrow>
   fst y \<longrightarrow> (\<exists>n. polled lv timeUp w n \<and> snd y = skip (Suc n) n w)"
proof (induction rule: waitWhile.raw_induct [rotated 1, consumes 1])
  case (1 waitWhile GPIO lv timeUp w y)
  show ?case
  proof (cases "line w (reads w) = lv")
    case False
    with 1(2) have "y = (True, skip 1 0 w)"
      by (simp add: digitalRead_skip)
    with False show ?thesis
      by (auto simp: polled_0 intro!: exI [of _ 0])
  next
    case True
    show ?thesis
    proof
      assume ok: "fst y"
      with True 1(2) have nt: "\<not> timercmp_gt (clock w (ticks w)) timeUp"
        and rec: "waitWhile GPIO lv timeUp (skip 1 1 w) = Some y"
        by (auto simp: digitalRead_skip gettimeofday_skip split: if_splits)
      from 1(1) [OF rec] ok obtain n where "polled lv timeUp (skip 1 1 w) n"
        and "snd y = skip (Suc n) n (skip 1 1 w)" by blast
      with True nt show "\<exists>n. polled lv timeUp w n \<and> snd y = skip (Suc n) n w"
        by (auto simp: polled_Suc intro!: exI [of _ "Suc n"])
    qed
  qed
qed

lemma waitWhile_True_iff:
  "waitWhile GPIO lv timeUp w = Some (True, w') \<longleftrightarrow>
   (\<exists>n. polled lv timeUp w n \<and> w' = skip (Suc n) n w)"
  using waitWhile_True_polled [of GPIO lv timeUp w "(True, w')"] waitWhile_polled [of lv timeUp w _ GPIO]
  by auto

lemma waitWhile_returns:
  "timercmp_gt (clock w (ticks w + j)) timeUp \<Longrightarrow> \<exists>ok w'. waitWhile GPIO lv timeUp w = Some (ok, w')"
proof (induction j arbitrary: w)
  case 0
  then show ?case
    by (cases "line w (reads w) = lv") (auto simp: waitWhile_exit waitWhile_timeout)
next
  case (Suc j)
  show ?case
  proof (cases "line w (reads w) = lv \<and> \<not> timercmp_gt (clock w (ticks w)) timeUp")
    case True
    moreover from Suc.prems have "timercmp_gt (clock (skip 1 1 w) (ticks (skip 1 1 w) + j)) timeUp"
      by simp
    ultimately show ?thesis
      using Suc.IH [of "skip 1 1 w"] by (simp add: waitWhile_continue)
  next
    case False
    then show ?thesis
      by (cases "line w (reads w) = lv") (auto simp: waitWhile_exit waitWhile_timeout)
  qed
qed

lemma waitWhile_returns_later:
  assumes "ticks w \<le> j" and "timercmp_gt (clock w j) timeUp"
  shows "\<exists>ok w'. waitWhile GPIO lv timeUp w = Some (ok, w')"
proof -
  from assms have "timercmp_gt (clock w (ticks w + (j - ticks w))) timeUp"
    by simp
  then show ?thesis
    by (rule waitWhile_returns)
qed

lemma sensorLowHighWait_True_iff:
  "sensorLowHighWait GPIO w = Some (True, w') \<longleftrightarrow>
   (\<exists>n m. subwait HIGH w n \<and> subwait LOW (skip (Suc n) (Suc n) w) m \<and>
          w' = skip (n + m + 2) (n + m + 2) w)"
  (is "?L \<longleftrightarrow> ?R")
proof
  assume ?L
  then obtain w2 where a: "waitWhile GPIO HIGH (timeradd (clock w (ticks w)) \<lparr>tv_sec = 0, tv_usec = 1000\<rparr>) (skip 0 1 w) = Some (True, w2)"
    and b: "waitWhile GPIO LOW (timeradd (clock w2 (ticks w2)) \<lparr>tv_sec = 0, tv_usec = 1000\<rparr>) (skip 0 1 w2) = Some (True, w')"
    by (auto simp: sensorLowHighWait_def gettimeofday_skip Let_def split: option.splits if_splits)
  from a obtain n where n: "subwait HIGH w n" "w2 = skip (Suc n) (Suc n) w"
    by (auto simp: waitWhile_True_iff subwait_def)
  from b obtain m where m: "subwait LOW w2 m" "w' = skip (Suc m) (Suc m) w2"
    by (auto simp: waitWhile_True_iff subwait_def)
  from n m show ?R by auto
next
  assume ?R
  then obtain n m where n: "subwait HIGH w n" and m: "subwait LOW (skip (Suc n) (Suc n) w) m"
    and w': "w' = skip (n + m + 2) (n + m + 2) w" by blast
  from n have "waitWhile GPIO HIGH (timeradd (clock w (ticks w)) \<lparr>tv_sec = 0, tv_usec = 1000\<rparr>) (skip 0 1 w) = Some (True, skip (Suc n) (Suc n) w)"
    by (simp add: subwait_def waitWhile_polled)
  moreover from m have "waitWhile GPIO LOW (timeradd (clock w (ticks w + Suc n)) \<lparr>tv_sec = 0, tv_usec = 1000\<rparr>) (skip (Suc n) (Suc (Suc n)) w) = Some (True, skip (n + m + 2) (n + m + 2) w)"
    by (simp add: subwait_def waitWhile_polled)
  ultimately show ?L
    by (simp add: sensorLowHighWait_def gettimeofday_skip w')
qed

lemma sensorLowHighWait_returns:
  assumes "clock_unbounded w"
  shows "\<exists>ok w'. sensorLowHighWait GPIO w = Some (ok, w')"
proof -
  let ?d = "\<lambda>t. timeradd t \<lparr>tv_sec = 0, tv_usec = 1000\<rparr>"
  from assms obtain j where "j \<ge> ticks w + 1" "timercmp_gt (clock w j) (?d (clock w (ticks w)))"
    unfolding clock_unbounded_def by blast
  then have "\<exists>ok w2. waitWhile GPIO HIGH (?d (clock w (ticks w))) (skip 0 1 w) = Some (ok, w2)"
    by (intro waitWhile_returns_later [of _ j]) simp_all
  then obtain ok w2
    where a: "waitWhile GPIO HIGH (?d (clock w (ticks w))) (skip 0 1 w) = Some (ok, w2)" by blast
  show ?thesis
  proof (cases ok)
    case False
    with a show ?thesis by (auto simp: sensorLowHighWait_def gettimeofday_skip)
  next
    case True
    with a obtain n where w2: "w2 = skip (Suc n) (Suc n) w"
      by (auto simp: waitWhile_True_iff)
    from assms obtain i where "i \<ge> ticks w2 + 1" "timercmp_gt (clock w i) (?d (clock w2 (ticks w2)))"
      unfolding clock_unbounded_def by blast
    then have "\<exists>ok' w3. waitWhile GPIO LOW (?d (clock w2 (ticks w2))) (skip 0 1 w2) = Some (ok', w3)"
      by (intro waitWhile_returns_later [of _ i]) (simp_all add: w2)
    with a True show ?thesis by (auto simp: sensorLowHighWait_def gettimeofday_skip)
  qed
qed

subsection \<open>The byte sampler\<close>

lemma loop_done: "\<not> bit_i < 8 \<Longrightarrow> retrieveByte_loop GPIO bit_i result w = Some (result, w)"
  by (subst retrieveByte_loop.simps) simp

lemma loop_cell:
  "bit_i < 8 \<Longrightarrow> bitCell GPIO w = Some (Some l, w1) \<Longrightarrow>
   retrieveByte_loop GPIO bit_i result w = retrieveByte_loop GPIO (Suc bit_i) (shift_in result l) w1"
  by (subst retrieveByte_loop.simps)
    (auto simp: bitCell_def shift_in_def Let_def split: option.splits if_splits prod.splits)

lemma loop_abort:
  "bit_i < 8 \<Longrightarrow> bitCell GPIO w = Some (None, w1) \<Longrightarrow>
   retrieveByte_loop GPIO bit_i result w = Some (0, w1)"
  by (subst retrieveByte_loop.simps)
    (auto simp: bitCell_def Let_def split: option.splits if_splits prod.splits)

lemma loop_cells:
  "cells GPIO k w = Some (ls, w') \<Longrightarrow> bit_i + k \<le> 8 \<Longrightarrow>
   retrieveByte_loop GPIO bit_i result w =
   retrieveByte_loop GPIO (bit_i + k) (foldl shift_in result ls) w'"
proof (induction k arbitrary: w ls bit_i result)
  case 0
  then show ?case by simp
next
  case (Suc k)
  from Suc.prems(1) obtain l w1 ls' where c: "bitCell GPIO w = Some (Some l, w1)"
    and r: "cells GPIO k w1 = Some (ls', w')" and ls: "ls = l # ls'"
    by (auto split: option.splits prod.splits)
  from Suc.prems(2) have "bit_i < 8" "Suc bit_i + k \<le> 8" by simp_all
  with Suc.IH [OF r, of "Suc bit_i"] c show ?case
    by (simp add: loop_cell ls)
qed

lemma cells_length: "cells GPIO k w = Some (ls, w') \<Longrightarrow> length ls = k"
  by (induction k arbitrary: w ls) (auto split: option.splits prod.splits)

lemma msb_first_bound: "msb_first ls < 2 ^ length ls"
  by (induction ls) auto

lemma unat_shift_in: "unat (shift_in r l) = (2 * unat r + (if l = HIGH then 1 else 0)) mod 256"
  by (simp add: shift_in_def or_one_eq unat_word_ariths mod_simps mult.commute)

lemma unat_foldl_shift_in:
  "unat (foldl shift_in r ls) = (unat r * 2 ^ length ls + msb_first ls) mod 256"
proof (induction ls arbitrary: r)
  case Nil
  have "unat r < 256" using unsigned_less [of r] by simp
  then show ?case by simp
next
  case (Cons l ls)
  let ?b = "if l = HIGH then 1 else 0 :: nat"
  have "unat (foldl shift_in r (l # ls)) = (unat (shift_in r l) * 2 ^ length ls + msb_first ls) mod 256"
    by (simp add: Cons.IH)
  also have "\<dots> = ((2 * unat r + ?b) mod 256 * 2 ^ length ls + msb_first ls) mod 256"
    by (simp only: unat_shift_in)
  also have "\<dots> = ((2 * unat r + ?b) * 2 ^ length ls + msb_first ls) mod 256"
    by (metis mod_add_left_eq mod_mult_left_eq)
  also have "(2 * unat r + ?b) * 2 ^ length ls + msb_first ls
             = unat r * 2 ^ length (l # ls) + msb_first (l # ls)"
    by (simp add: algebra_simps)
  finally show ?case .
qed

lemma retrieveByte_cells:
  assumes "cells GPIO 8 w = Some (ls, w')"
  shows "retrieveByte GPIO w = Some (foldl shift_in 0 ls, w')"
    and "unat (foldl shift_in 0 ls :: uint8_t) = msb_first ls"
proof -
  from loop_cells [OF assms, of 0 0] show "retrieveByte GPIO w = Some (foldl shift_in 0 ls, w')"
    by (simp add: retrieveByte_def loop_done)
  from cells_length [OF assms] msb_first_bound [of ls]
  show "unat (foldl shift_in 0 ls :: uint8_t) = msb_first ls"
    by (simp add: unat_foldl_shift_in)
qed

lemma retrieveByte_abort:
  assumes "k < 8" and "cells GPIO k w = Some (ls, w1)" and "bitCell GPIO w1 = Some (None, w2)"
  shows "retrieveByte GPIO w = Some (0, w2)"
proof -
  from assms(1) have "0 + k \<le> 8" by simp
  from loop_cells [OF assms(2) this] assms(1,3) show ?thesis
    by (simp add: retrieveByte_def loop_abort)
qed

subsection \<open>Decoding\<close>

lemma sign_bit:
  assumes "(b :: uint8_t) AND 0x80 \<noteq> 0"
  shows "128 \<le> uint b"
proof -
  have "(0x80 :: uint8_t) = 2 ^ 7" by simp
  with assms have "bit b 7"
    by (simp only: and_exp_eq_0_iff_not_bit) simp
  then have "bit (uint b) 7"
    by (simp add: bit_uint_iff)
  then have "odd (uint b div 2 ^ 7)"
    by (simp add: bit_iff_odd)
  then have "uint b div 128 \<noteq> 0"
    by auto
  moreover have "0 \<le> uint b" by simp
  ultimately show ?thesis
    by arith
qed

lemma parseReading_temperature:
  "temperature (parseReading sensorData) =
     (if sensorData ! 2 AND 0x80 \<noteq> 0
      then - (real_of_int (uint (sensorData ! 2) * 256 + uint (sensorData ! 3)) / 10)
      else real_of_int (uint (sensorData ! 2) * 256 + uint (sensorData ! 3)) / 10)"
  by (simp add: parseReading_def Let_def)

lemma parseReading_sign_bit:
  assumes "sensorData ! 2 AND 0x80 \<noteq> 0"
  shows "temperature (parseReading sensorData) \<le> - 3276.8"
proof -
  from sign_bit [OF assms] have "32768 \<le> uint (sensorData ! 2) * 256 + uint (sensorData ! 3)"
    using uint_ge_0 [of "sensorData ! 3"] by linarith
  then have "32768 \<le> real_of_int (uint (sensorData ! 2) * 256 + uint (sensorData ! 3))"
    by linarith
  moreover from assms have "temperature (parseReading sensorData) =
      - (real_of_int (uint (sensorData ! 2) * 256 + uint (sensorData ! 3)) / 10)"
    by (simp add: parseReading_temperature)
  ultimately show ?thesis
    by simp
qed

lemma parseReading_no_sign_bit:
  assumes "sensorData ! 2 AND 0x80 = 0"
  shows "0 \<le> temperature (parseReading sensorData)"
proof -
  have "0 \<le> uint (sensorData ! 2) * 256 + uint (sensorData ! 3)"
    using uint_ge_0 [of "sensorData ! 3"] uint_ge_0 [of "sensorData ! 2"] by linarith
  then have "0 \<le> real_of_int (uint (sensorData ! 2) * 256 + uint (sensorData ! 3))"
    by linarith
  moreover from assms have "temperature (parseReading sensorData) =
      real_of_int (uint (sensorData ! 2) * 256 + uint (sensorData ! 3)) / 10"
    by (simp add: parseReading_temperature)
  ultimately show ?thesis
    by simp
qed

lemma withinCapabilities_nonneg:
  assumes "withinCapabilities (parseReading sensorData)"
  shows "0 \<le> temperature (parseReading sensorData)"
proof (cases "sensorData ! 2 AND 0x80 = 0")
  case True
  then show ?thesis by (rule parseReading_no_sign_bit)
next
  case False
  from parseReading_sign_bit [OF False] assms show ?thesis
    by (simp add: withinCapabilities_def SENSOR_TMP_MIN_def)
qed

subsection \<open>The session\<close>

lemma querySensor_unfold:
  "querySensor GPIO results w =
     (case sensorLowHighWait GPIO (wakeSensor GPIO w) of
        None \<Rightarrow> None
      | Some (ok, w9) \<Rightarrow>
          if \<not> ok then Some ((False, results), w9)
          else
            (case querySensor_loop GPIO 0 [0, 0, 0, 0, 0] results 0x00 w9 of
               None \<Rightarrow> None
             | Some ((retrievedBytes, results1, queryChecksum), w10) \<Rightarrow>
                 Some ((let took = timersub (clock w10 (ticks w10)) (clock w (ticks w))
                        in if tv_sec took \<noteq> 0 \<or> tv_usec took > 16000 then False
                           else queryChecksum AND 0xFF = retrievedBytes ! 4,
                        results1),
                       setDefaultPriority (snd (gettimeofday w10)))))"
  by (simp add: querySensor_def wakeSensor_def Let_def gettimeofday_def setMaximumPriority_def
      sched_setscheduler_def split: option.splits prod.splits)

lemma querySensor_noack:
  "sensorLowHighWait GPIO (wakeSensor GPIO w) = Some (False, w0) \<Longrightarrow>
   querySensor GPIO results w = Some ((False, results), w0)"
  by (simp add: querySensor_unfold)

lemma querySensor_loop_step:
  "byte_i < 4 \<Longrightarrow> byte_i < length retrievedBytes \<Longrightarrow> retrieveByte GPIO w = Some (b, w1) \<Longrightarrow>
   querySensor_loop GPIO byte_i retrievedBytes results queryChecksum w =
   querySensor_loop GPIO (Suc byte_i) (retrievedBytes[byte_i := b]) (results[byte_i := b])
     (queryChecksum + b) w1"
  by (subst querySensor_loop.simps) simp

lemma querySensor_loop_last:
  "retrieveByte GPIO w = Some (b, w1) \<Longrightarrow>
   querySensor_loop GPIO 4 retrievedBytes results queryChecksum w =
   Some ((retrievedBytes[4 := b], results, queryChecksum), w1)"
  by (subst querySensor_loop.simps, simp, subst querySensor_loop.simps, simp)

lemma querySensor_loop_five:
  assumes "retrieveByte GPIO w0 = Some (b0, w1)"
    and "retrieveByte GPIO w1 = Some (b1, w2)"
    and "retrieveByte GPIO w2 = Some (b2, w3)"
    and "retrieveByte GPIO w3 = Some (b3, w4)"
    and "retrieveByte GPIO w4 = Some (b4, w5)"
  shows "querySensor_loop GPIO 0 [0, 0, 0, 0, 0] results 0x00 w0 =
         Some (([b0, b1, b2, b3, b4], results[0 := b0, 1 := b1, 2 := b2, 3 := b3],
                b0 + b1 + b2 + b3), w5)"
proof -
  have "querySensor_loop GPIO 0 [0, 0, 0, 0, 0] results 0x00 w0 =
        querySensor_loop GPIO 1 [b0, 0, 0, 0, 0] (results[0 := b0]) b0 w1"
    using querySensor_loop_step [OF _ _ assms(1), of 0 "[0, 0, 0, 0, 0]" results 0] by simp
  also have "\<dots> = querySensor_loop GPIO 2 [b0, b1, 0, 0, 0] (results[0 := b0, 1 := b1]) (b0 + b1) w2"
    using querySensor_loop_step [OF _ _ assms(2), of 1 "[b0, 0, 0, 0, 0]" "results[0 := b0]" b0]
    by (simp add: numeral_2_eq_2)
  also have "\<dots> = querySensor_loop GPIO 3 [b0, b1, b2, 0, 0] (results[0 := b0, 1 := b1, 2 := b2])
      (b0 + b1 + b2) w3"
    using querySensor_loop_step [OF _ _ assms(3), of 2 "[b0, b1, 0, 0, 0]" "results[0 := b0, 1 := b1]" "b0 + b1"]
    by (simp add: numeral_3_eq_3 numeral_2_eq_2)
  also have "\<dots> = querySensor_loop GPIO 4 [b0, b1, b2, b3, 0]
      (results[0 := b0, 1 := b1, 2 := b2, 3 := b3]) (b0 + b1 + b2 + b3) w4"
    using querySensor_loop_step [OF _ _ assms(4), of 3 "[b0, b1, b2, 0, 0]"
        "results[0 := b0, 1 := b1, 2 := b2]" "b0 + b1 + b2"]
    by (simp add: numeral_3_eq_3 eval_nat_numeral)
  also have "\<dots> = Some (([b0, b1, b2, b3, b4], results[0 := b0, 1 := b1, 2 := b2, 3 := b3],
                b0 + b1 + b2 + b3), w5)"
    using querySensor_loop_last [OF assms(5), of "[b0, b1, b2, b3, 0]"]
    by (simp add: eval_nat_numeral)
  finally show ?thesis .
qed

lemma checksum_eq:
  "((b0 + b1 + b2 + b3) AND 0xFF = (b4 :: uint8_t)) \<longleftrightarrow>
   (uint b0 + uint b1 + uint b2 + uint b3) mod 256 = uint b4"
proof -
  have "(0xFF :: uint8_t) = - 1"
    by simp
  then have "(b0 + b1 + b2 + b3) AND 0xFF = b0 + b1 + b2 + b3"
    by (simp only: and.right_neutral)
  moreover have "uint (b0 + b1 + b2 + b3) = (uint b0 + uint b1 + uint b2 + uint b3) mod 256"
    by (simp add: uint_word_ariths mod_simps)
  ultimately show ?thesis
    by (simp only: word_uint_eq_iff)
qed

lemma querySensor_reached:
  assumes "sensorLowHighWait GPIO (wakeSensor GPIO w) = Some (True, w0)"
    and "retrieveByte GPIO w0 = Some (b0, w1)"
    and "retrieveByte GPIO w1 = Some (b1, w2)"
    and "retrieveByte GPIO w2 = Some (b2, w3)"
    and "retrieveByte GPIO w3 = Some (b3, w4)"
    and "retrieveByte GPIO w4 = Some (b4, w5)"
  shows "querySensor GPIO results w =
         Some ((let took = timersub (clock w5 (ticks w5)) (clock w (ticks w))
                in if tv_sec took \<noteq> 0 \<or> tv_usec took > 16000 then False
                   else (uint b0 + uint b1 + uint b2 + uint b3) mod 256 = uint b4,
                results[0 := b0, 1 := b1, 2 := b2, 3 := b3]),
               setDefaultPriority (snd (gettimeofday w5)))"
  by (simp add: querySensor_unfold assms(1) querySensor_loop_five [OF assms(2-6)]
      checksum_eq Let_def del: One_nat_def)

subsection \<open>Attempts\<close>

lemma attempts_simps [simp]:
  "attempts G (skip r t w) = attempts G w"
  "attempts G (delay ms w) = attempts G w"
  "attempts G (delayMicroseconds us w) = attempts G w"
  "attempts G (digitalWrite GPIO l w) = attempts G w"
  "attempts G (pinMode GPIO INPUT w) = attempts G w"
  "attempts G (pinMode G OUTPUT w) = Suc (attempts G w)"
  "attempts G (setMaximumPriority w) = attempts G w"
  "attempts G (setDefaultPriority w) = attempts G w"
  "attempts G (snd (gettimeofday w)) = attempts G w"
  by (simp_all add: attempts_def skip_def delay_def delayMicroseconds_def digitalWrite_def
      pinMode_def setMaximumPriority_def setDefaultPriority_def sched_setscheduler_def
      gettimeofday_def)

lemma waitWhile_skip:
  "waitWhile GPIO lv timeUp w = Some y \<Longrightarrow> \<exists>r t. snd y = skip r t w"
proof (induction rule: waitWhile.raw_induct [rotated 1, consumes 1])
  case (1 waitWhile GPIO lv timeUp w y)
  show ?case
  proof (cases "line w (reads w) = lv \<and> \<not> timercmp_gt (clock w (ticks w)) timeUp")
    case True
    with 1(2) have "waitWhile GPIO lv timeUp (skip 1 1 w) = Some y"
      by (simp add: digitalRead_skip gettimeofday_skip)
    from 1(1) [OF this] obtain r t where "snd y = skip r t (skip 1 1 w)" by blast
    then have "snd y = skip (1 + r) (1 + t) w" by simp
    then show ?thesis by blast
  next
    case False
    with 1(2) have "snd y = skip 1 0 w \<or> snd y = skip 1 1 w"
      by (auto simp: digitalRead_skip gettimeofday_skip split: if_splits)
    then show ?thesis by blast
  qed
qed

lemma sensorLowHighWait_skip:
  assumes "sensorLowHighWait GPIO w = Some (ok, w')"
  shows "\<exists>r t. w' = skip r t w"
proof -
  let ?d = "\<lambda>t. timeradd t \<lparr>tv_sec = 0, tv_usec = 1000\<rparr>"
  from assms obtain ok1 w2 where a: "waitWhile GPIO HIGH (?d (clock w (ticks w))) (skip 0 1 w) = Some (ok1, w2)"
    by (auto simp: sensorLowHighWait_def gettimeofday_skip split: option.splits)
  from waitWhile_skip [OF a] obtain r t where w2: "w2 = skip r (1 + t) w" by auto
  show ?thesis
  proof (cases ok1)
    case False
    with assms a have "w' = w2" by (simp add: sensorLowHighWait_def gettimeofday_skip)
    with w2 show ?thesis by blast
  next
    case True
    with assms a have b: "waitWhile GPIO LOW (?d (clock w2 (ticks w2))) (skip 0 1 w2) = Some (ok, w')"
      by (simp add: sensorLowHighWait_def gettimeofday_skip)
    from waitWhile_skip [OF b] obtain r' t' where "w' = skip r' t' (skip 0 1 w2)" by auto
    with w2 have "w' = skip (r + r') (1 + t + (1 + t')) w" by simp
    then show ?thesis by blast
  qed
qed

lemma bitCell_attempts:
  assumes "bitCell GPIO w = Some (r, w1)"
  shows "attempts G w1 = attempts G w"
proof -
  from assms obtain ok w0 where a: "sensorLowHighWait GPIO w = Some (ok, w0)"
    and b: "w1 = (if ok then skip 1 0 (delayMicroseconds 30 w0) else w0)"
    by (auto simp: bitCell_def digitalRead_skip split: option.splits if_splits)
  from sensorLowHighWait_skip [OF a] b show ?thesis by auto
qed

lemma loop_None:
  "bit_i < 8 \<Longrightarrow> bitCell GPIO w = None \<Longrightarrow> retrieveByte_loop GPIO bit_i result w = None"
  by (subst retrieveByte_loop.simps)
    (auto simp: bitCell_def Let_def split: option.splits if_splits prod.splits)

lemma retrieveByte_loop_attempts:
  "retrieveByte_loop GPIO bit_i result w = Some (b, w') \<Longrightarrow> attempts G w' = attempts G w"
proof (induction "8 - bit_i" arbitrary: bit_i result w)
  case 0
  then show ?case by (simp add: loop_done)
next
  case (Suc n)
  then have lt: "bit_i < 8" by simp
  show ?case
  proof (cases "bitCell GPIO w")
    case None
    with Suc.prems lt show ?thesis by (simp add: loop_None)
  next
    case (Some c)
    obtain r w1 where c: "c = (r, w1)" by (cases c)
    show ?thesis
    proof (cases r)
      case None
      with Some c Suc.prems lt bitCell_attempts [of GPIO w r w1 G] show ?thesis
        by (simp add: loop_abort)
    next
      case (Some l)
      with \<open>bitCell GPIO w = Some c\<close> c have cell: "bitCell GPIO w = Some (Some l, w1)" by simp
      with Suc.prems lt have "retrieveByte_loop GPIO (Suc bit_i) (shift_in result l) w1 = Some (b, w')"
        by (simp add: loop_cell)
      moreover from Suc.hyps(2) have "n = 8 - Suc bit_i" by simp
      ultimately have "attempts G w' = attempts G w1"
        by (rule Suc.hyps(1) [rotated])
      with bitCell_attempts [OF cell, of G] show ?thesis by simp
    qed
  qed
qed

lemma retrieveByte_attempts:
  "retrieveByte GPIO w = Some (b, w') \<Longrightarrow> attempts G w' = attempts G w"
  unfolding retrieveByte_def by (rule retrieveByte_loop_attempts)

lemma querySensor_loop_attempts:
  "querySensor_loop GPIO byte_i retrievedBytes results queryChecksum w = Some (r, w') \<Longrightarrow>
   attempts G w' = attempts G w"
proof (induction "5 - byte_i" arbitrary: byte_i retrievedBytes results queryChecksum w)
  case 0
  then show ?case by (subst (asm) querySensor_loop.simps) simp
next
  case (Suc n)
  then have lt: "byte_i < 5" by simp
  from Suc.prems lt obtain b w1 rb rs qc where rb: "retrieveByte GPIO w = Some (b, w1)"
    and rec: "querySensor_loop GPIO (Suc byte_i) rb rs qc w1 = Some (r, w')"
    by (subst (asm) querySensor_loop.simps) (auto simp: Let_def split: option.splits if_splits)
  from Suc.hyps(2) have "n = 5 - Suc byte_i" by simp
  from Suc.hyps(1) [OF this rec] retrieveByte_attempts [OF rb, of G] show ?case by simp
qed

lemma querySensor_attempts:
  assumes "querySensor GPIO results w = Some (r, w')"
  shows "attempts GPIO w' = Suc (attempts GPIO w)"
proof -
  from assms obtain ok w9 where a: "sensorLowHighWait GPIO (wakeSensor GPIO w) = Some (ok, w9)"
    by (auto simp: querySensor_unfold split: option.splits)
  from sensorLowHighWait_skip [OF a] have w9: "attempts GPIO w9 = Suc (attempts GPIO w)"
    by (auto simp: wakeSensor_def)
  show ?thesis
  proof (cases ok)
    case False
    with assms a w9 show ?thesis by (simp add: querySensor_unfold)
  next
    case True
    with assms a obtain x w10 where b: "querySensor_loop GPIO 0 [0, 0, 0, 0, 0] results 0x00 w9 = Some (x, w10)"
      and w': "w' = setDefaultPriority (snd (gettimeofday w10))"
      by (auto simp: querySensor_unfold split: option.splits)
    from querySensor_loop_attempts [OF b, of GPIO] w9 w' show ?thesis by simp
  qed
qed

lemma parse_loop_cases:
  "parseSensorOutput_loop n GPIO na w = Some (r, w') \<Longrightarrow>
   r = \<lparr>temperature = na, humidity = na\<rparr> \<or> (\<exists>sd. r = parseReading sd \<and> withinCapabilities r)"
  by (induction n arbitrary: w) (auto simp: Let_def split: option.splits if_splits)

lemma parse_loop_attempts:
  "parseSensorOutput_loop n GPIO na w = Some (r, w') \<Longrightarrow> attempts GPIO w' \<le> attempts GPIO w + n"
proof (induction n arbitrary: w)
  case 0
  then show ?case by simp
next
  case (Suc n)
  from Suc.prems obtain ok sd w1 where q: "querySensor GPIO [0, 0, 0, 0] w = Some ((ok, sd), w1)"
    and d: "w' = w1 \<or> parseSensorOutput_loop n GPIO na (delay 2000 w1) = Some (r, w')"
    by (auto simp: Let_def split: option.splits if_splits)
  from querySensor_attempts [OF q] have a: "attempts GPIO w1 = Suc (attempts GPIO w)" .
  from d show ?case
  proof
    assume "w' = w1"
    with a show ?thesis by simp
  next
    assume "parseSensorOutput_loop n GPIO na (delay 2000 w1) = Some (r, w')"
    from Suc.IH [OF this] a show ?thesis by simp
  qed
qed

lemma failedRun_loop:
  "failedRun n GPIO w = Some w' \<Longrightarrow>
   parseSensorOutput_loop (n + k) GPIO na w = parseSensorOutput_loop k GPIO na w' \<and>
   attempts GPIO w' = attempts GPIO w + n"
proof (induction n arbitrary: w)
  case 0
  then show ?case by simp
next
  case (Suc n)
  from Suc.prems obtain ok sd w1 where q: "querySensor GPIO [0, 0, 0, 0] w = Some ((ok, sd), w1)"
    and f: "\<not> (ok \<and> withinCapabilities (parseReading sd))"
    and r: "failedRun n GPIO (delay 2000 w1) = Some w'"
    by (auto split: option.splits if_splits)
  from Suc.IH [OF r] querySensor_attempts [OF q] q f show ?case
    by (auto simp: Let_def)
qed

lemma parse_loop_success:
  assumes "querySensor GPIO [0, 0, 0, 0] w = Some ((True, sd), w1)"
    and "withinCapabilities (parseReading sd)"
  shows "parseSensorOutput_loop (Suc n) GPIO na w = Some (parseReading sd, w1)"
  using assms by (simp add: Let_def)

subsection \<open>Running the concrete worlds\<close>

lemma world_at_simps [simp]:
  "line (world_at lin clk r t pol evs) = lin" "reads (world_at lin clk r t pol evs) = r"
  "clock (world_at lin clk r t pol evs) = clk" "ticks (world_at lin clk r t pol evs) = t"
  "setup_status (world_at lin clk r t pol evs) = 0" "log (world_at lin clk r t pol evs) = evs"
  "policy (world_at lin clk r t pol evs) = pol"
  "skip a b (world_at lin clk r t pol evs) = world_at lin clk (r + a) (t + b) pol evs"
  "delayMicroseconds us (world_at lin clk r t pol evs) =
     world_at lin clk r t pol (At r t (DelayMicroseconds us) # evs)"
  "delay ms (world_at lin clk r t pol evs) = world_at lin clk r t pol (At r t (Delay ms) # evs)"
  "wakeSensor GPIO (world_at lin clk r t pol evs) =
     world_at lin clk r (Suc t) SCHED_FIFO (wake_log GPIO r (Suc t) evs)"
  "setDefaultPriority (world_at lin clk r t pol evs) = world_at lin clk r t SCHED_OTHER evs"
  "setMaximumPriority (world_at lin clk r t pol evs) = world_at lin clk r t SCHED_FIFO evs"
  "snd (gettimeofday (world_at lin clk r t pol evs)) = world_at lin clk r (Suc t) pol evs"
  "fst (gettimeofday (world_at lin clk r t pol evs)) = clk t"
  by (simp_all add: world_at_def skip_def delayMicroseconds_def delay_def wakeSensor_def
      wake_log_def pinMode_def digitalWrite_def gettimeofday_def setMaximumPriority_def
      setDefaultPriority_def sched_setscheduler_def)

lemma wait_prompt:
  assumes "line w (reads w) = LOW" and "line w (Suc (reads w)) = HIGH"
  shows "sensorLowHighWait GPIO w = Some (True, skip 2 2 w)"
proof -
  from assms have "subwait HIGH w 0" "subwait LOW (skip (Suc 0) (Suc 0) w) 0"
    by (simp_all add: subwait_def polled_0)
  then have "\<exists>n m. subwait HIGH w n \<and> subwait LOW (skip (Suc n) (Suc n) w) m \<and>
      skip 2 2 w = skip (n + m + 2) (n + m + 2) w"
    by (intro exI [of _ 0]) simp
  then show ?thesis
    by (simp only: sensorLowHighWait_True_iff)
qed

lemma wait_stuck:
  assumes "line w (reads w) = HIGH"
    and "timercmp_gt (clock w (Suc (ticks w)))
           (timeradd (clock w (ticks w)) \<lparr>tv_sec = 0, tv_usec = 1000\<rparr>)"
  shows "sensorLowHighWait GPIO w = Some (False, skip 1 2 w)"
  using assms by (simp add: sensorLowHighWait_def gettimeofday_skip waitWhile_timeout)

lemma bitCell_prompt:
  assumes "line w (reads w) = LOW" and "line w (Suc (reads w)) = HIGH"
  shows "bitCell GPIO w =
         Some (Some (line w (reads w + 2)), skip 1 0 (delayMicroseconds 30 (skip 2 2 w)))"
  by (simp add: bitCell_def wait_prompt [OF assms] digitalRead_skip delayMicroseconds_def)

lemma bitCell_stuck:
  assumes "line w (reads w) = HIGH"
    and "timercmp_gt (clock w (Suc (ticks w)))
           (timeradd (clock w (ticks w)) \<lparr>tv_sec = 0, tv_usec = 1000\<rparr>)"
  shows "bitCell GPIO w = Some (None, skip 1 2 w)"
  by (simp add: bitCell_def wait_stuck [OF assms])

lemma cells_numeral:
  "cells GPIO (numeral k) w =
     (case bitCell GPIO w of
        Some (Some l, w1) \<Rightarrow>
          (case cells GPIO (pred_numeral k) w1 of Some (ls, w2) \<Rightarrow> Some (l # ls, w2) | None \<Rightarrow> None)
      | _ \<Rightarrow> None)"
  by (simp add: numeral_eq_Suc)

lemma failedRun_numeral:
  "failedRun (numeral k) GPIO w =
     (case querySensor GPIO [0x00, 0x00, 0x00, 0x00] w of
        None \<Rightarrow> None
      | Some ((ok, sensorData), w1) \<Rightarrow>
          if ok \<and> withinCapabilities (parseReading sensorData) then None
          else failedRun (pred_numeral k) GPIO (delay 2000 w1))"
  by (simp add: numeral_eq_Suc)

lemma slow_clock_passes:
  "timercmp_gt (slow_clock (Suc t)) (timeradd (slow_clock t) \<lparr>tv_sec = 0, tv_usec = 1000\<rparr>)"
  by (simp add: slow_clock_def timeradd_def timercmp_gt_def)

lemma slow_clock_unbounded: "clock_unbounded (world_at lin slow_clock r t pol evs)"
  unfolding clock_unbounded_def
proof (intro allI)
  fix d :: timeval and k :: nat
  let ?j = "k + nat (tv_sec d)"
  have "timercmp_gt (slow_clock ?j) d"
    by (simp add: slow_clock_def timercmp_gt_def)
  then show "\<exists>j\<ge>k. timercmp_gt (clock (world_at lin slow_clock r t pol evs) j) d"
    by (intro exI [of _ ?j]) simp
qed

lemmas sensor_eval = cells_numeral bitCell_prompt sensor_line_def payload_levels_def byte_log_def

lemma sensor_ack:
  "sensorLowHighWait GPIO (wakeSensor GPIO (world_at sensor_line clk 0 0 pol evs)) =
   Some (True, world_at sensor_line clk 2 3 SCHED_FIFO (wake_log GPIO 0 1 evs))"
  by (simp add: wait_prompt sensor_line_def numeral_2_eq_2 numeral_3_eq_3)

lemma sensor_cells0:
  "cells GPIO 8 (world_at sensor_line clk 2 3 pol evs) =
   Some ([LOW, LOW, LOW, LOW, LOW, LOW, HIGH, LOW], world_at sensor_line clk 26 19 pol
           (byte_log 2 3 evs))"
  by (simp add: sensor_eval)

lemma sensor_cells1:
  "cells GPIO 8 (world_at sensor_line clk 26 19 pol evs) =
   Some ([HIGH, LOW, LOW, LOW, HIGH, HIGH, LOW, LOW], world_at sensor_line clk 50 35 pol
           (byte_log 26 19 evs))"
  by (simp add: sensor_eval)

lemma sensor_cells2:
  "cells GPIO 8 (world_at sensor_line clk 50 35 pol evs) =
   Some ([LOW, LOW, LOW, LOW, LOW, LOW, LOW, HIGH], world_at sensor_line clk 74 51 pol
           (byte_log 50 35 evs))"
  by (simp add: sensor_eval)

lemma sensor_cells3:
  "cells GPIO 8 (world_at sensor_line clk 74 51 pol evs) =
   Some ([LOW, LOW, LOW, LOW, HIGH, LOW, LOW, LOW], world_at sensor_line clk 98 67 pol
           (byte_log 74 51 evs))"
  by (simp add: sensor_eval)

lemma sensor_cells4:
  "cells GPIO 8 (world_at sensor_line clk 98 67 pol evs) =
   Some ([HIGH, LOW, LOW, HIGH, LOW, HIGH, HIGH, HIGH], world_at sensor_line clk 122 83 pol
           (byte_log 98 67 evs))"
  by (simp add: sensor_eval)

lemma sensor_byte0:
  "retrieveByte GPIO (world_at sensor_line clk 2 3 pol evs) =
   Some (0x02, world_at sensor_line clk 26 19 pol
           (byte_log 2 3 evs))"
  using retrieveByte_cells(1) [OF sensor_cells0] by (simp add: shift_in_def)

lemma sensor_byte1:
  "retrieveByte GPIO (world_at sensor_line clk 26 19 pol evs) =
   Some (0x8C, world_at sensor_line clk 50 35 pol
           (byte_log 26 19 evs))"
  using retrieveByte_cells(1) [OF sensor_cells1] by (simp add: shift_in_def)

lemma sensor_byte2:
  "retrieveByte GPIO (world_at sensor_line clk 50 35 pol evs) =
   Some (0x01, world_at sensor_line clk 74 51 pol
           (byte_log 50 35 evs))"
  using retrieveByte_cells(1) [OF sensor_cells2] by (simp add: shift_in_def)

lemma sensor_byte3:
  "retrieveByte GPIO (world_at sensor_line clk 74 51 pol evs) =
   Some (0x08, world_at sensor_line clk 98 67 pol
           (byte_log 74 51 evs))"
  using retrieveByte_cells(1) [OF sensor_cells3] by (simp add: shift_in_def)

lemma sensor_byte4:
  "retrieveByte GPIO (world_at sensor_line clk 98 67 pol evs) =
   Some (0x97, world_at sensor_line clk 122 83 pol
           (byte_log 98 67 evs))"
  using retrieveByte_cells(1) [OF sensor_cells4] by (simp add: shift_in_def)

lemma sensor_session:
  "querySensor GPIO results (world_at sensor_line sensor_clock 0 0 pol evs) =
   Some ((True, results[0 := 0x02, 1 := 0x8C, 2 := 0x01, 3 := 0x08]),
         world_at sensor_line sensor_clock 122 84 SCHED_OTHER (session_log GPIO evs))"
  using querySensor_reached [OF sensor_ack sensor_byte0 sensor_byte1 sensor_byte2 sensor_byte3
      sensor_byte4, where results = results]
  by (simp add: sensor_clock_def timersub_def session_log_def)

lemma stuck_session:
  "querySensor GPIO results (world_at stuck_line slow_clock r t pol evs) =
   Some ((False, results),
         world_at stuck_line slow_clock (r + 1) (t + 3) SCHED_FIFO (wake_log GPIO r (t + 1) evs))"
  by (subst querySensor_noack [where ?w0.0 = "skip 1 2 (wakeSensor GPIO (world_at stuck_line slow_clock r t pol evs))"])
    (simp_all add: wait_stuck slow_clock_passes stuck_line_def numeral_3_eq_3)

lemma stuck_failedRun:
  "failedRun 5 GPIO (world_at stuck_line slow_clock 0 0 SCHED_OTHER []) =
   Some (world_at stuck_line slow_clock 5 15 SCHED_FIFO
     (stuck_log GPIO))"
  by (simp add: failedRun_numeral stuck_session)
    (simp add: world_at_def stuck_log_def wake_log_def)

subsection \<open>The orchestrator\<close>

lemma sensorLowHighWait_policy:
  assumes "sensorLowHighWait GPIO w = Some (ok, w')"
  shows "policy w' = policy w"
  using sensorLowHighWait_skip [OF assms] by auto

lemma wakeSensor_policy: "privileged w \<Longrightarrow> policy (wakeSensor GPIO w) = SCHED_FIFO"
  by (simp add: wakeSensor_def pinMode_def delayMicroseconds_def digitalWrite_def delay_def
      gettimeofday_def setMaximumPriority_def sched_setscheduler_def)

lemma parseSensorOutput_unfold:
  "setup_status w \<noteq> - 1 \<Longrightarrow>
   parseSensorOutput GPIO na w =
     (case parseSensorOutput_loop 5 GPIO na w of
        None \<Rightarrow> None
      | Some (result, w2) \<Rightarrow> Some (Returned result, w2))"
  by (simp add: parseSensorOutput_def wiringPiSetup_def QUERYRETRIES_def)

lemma parseSensorOutput_failure:
  "setup_status w = - 1 \<Longrightarrow>
   parseSensorOutput GPIO na w =
     Some (Exit_Failure,
           w\<lparr>log := At (reads w) (ticks w)
                         (Stderr (''wiringPi failed to initialize.'' @ [CHR 0x0A])) # log w\<rparr>)"
  by (simp add: parseSensorOutput_def wiringPiSetup_def)

lemma parseSensorOutput_cases:
  assumes "parseSensorOutput GPIO na w = Some (Returned r, w')"
  shows "r = \<lparr>temperature = na, humidity = na\<rparr> \<or>
         (\<exists>sd. r = parseReading sd \<and> withinCapabilities r)"
proof (cases "setup_status w = - 1")
  case True
  with assms show ?thesis by (simp add: parseSensorOutput_failure)
next
  case False
  with assms have "parseSensorOutput_loop 5 GPIO na w = Some (r, w')"
    by (auto simp: parseSensorOutput_unfold split: option.splits)
  then show ?thesis by (rule parse_loop_cases)
qed

lemma parseSensorOutput_attempts:
  assumes "parseSensorOutput GPIO na w = Some (out, w')"
  shows "attempts GPIO w' \<le> attempts GPIO w + 5"
proof (cases "setup_status w = - 1")
  case True
  with assms show ?thesis by (auto simp: parseSensorOutput_failure attempts_def)
next
  case False
  with assms obtain r where "parseSensorOutput_loop 5 GPIO na w = Some (r, w')"
    by (auto simp: parseSensorOutput_unfold split: option.splits)
  then show ?thesis by (rule parse_loop_attempts)
qed

lemma parseSensorOutput_exhausted:
  assumes "setup_status w \<noteq> - 1" and "failedRun 5 GPIO w = Some w'"
  shows "parseSensorOutput GPIO na w = Some (Returned \<lparr>temperature = na, humidity = na\<rparr>, w')"
    and "attempts GPIO w' = attempts GPIO w + 5"
  using failedRun_loop [OF assms(2), of 0 na] assms(1)
  by (simp_all add: parseSensorOutput_unfold)

lemma parseSensorOutput_success:
  assumes "setup_status w \<noteq> - 1" and "k < 5" and "failedRun k GPIO w = Some wk"
    and "querySensor GPIO [0, 0, 0, 0] wk = Some ((True, sensorData), w1)"
    and "withinCapabilities (parseReading sensorData)"
  shows "parseSensorOutput GPIO na w = Some (Returned (parseReading sensorData), w1)"
    and "attempts GPIO w1 = attempts GPIO w + k + 1"
proof -
  from assms(2) have "5 = k + Suc (4 - k)" by simp
  then have "parseSensorOutput_loop 5 GPIO na w = parseSensorOutput_loop (k + Suc (4 - k)) GPIO na w"
    by simp
  also have "\<dots> = parseSensorOutput_loop (Suc (4 - k)) GPIO na wk"
    using failedRun_loop [OF assms(3)] by blast
  also have "\<dots> = Some (parseReading sensorData, w1)"
    using assms(4,5) by (rule parse_loop_success)
  finally show "parseSensorOutput GPIO na w = Some (Returned (parseReading sensorData), w1)"
    using assms(1) by (simp add: parseSensorOutput_unfold)
  from failedRun_loop [OF assms(3), of 0 na] querySensor_attempts [OF assms(4)]
  show "attempts GPIO w1 = attempts GPIO w + k + 1" by simp
qed

lemma scenario_reading:
  "parseReading [0x02, 0x8C, 0x01, 0x08] = \<lparr>temperature = 26.4, humidity = 65.2\<rparr>"
  by (simp add: parseReading_def)

lemma sensor_parse:
  "parseSensorOutput GPIO na (world_at sensor_line sensor_clock 0 0 pol evs) =
   Some (Returned \<lparr>temperature = 26.4, humidity = 65.2\<rparr>,
         world_at sensor_line sensor_clock 122 84 SCHED_OTHER (session_log GPIO evs))"
  using parseSensorOutput_success(1) [of "world_at sensor_line sensor_clock 0 0 pol evs" 0 GPIO
      "world_at sensor_line sensor_clock 0 0 pol evs" "[0x02, 0x8C, 0x01, 0x08]"
      "world_at sensor_line sensor_clock 122 84 SCHED_OTHER (session_log GPIO evs)" na]
  by (simp add: sensor_session scenario_reading withinCapabilities_def SENSOR_TMP_MIN_def
      SENSOR_TMP_MAX_def SENSOR_HUM_MIN_def SENSOR_HUM_MAX_def)

subsection \<open>Returning under a clock that advances\<close>

lemma clock_unbounded_cong: "clock_unbounded w \<Longrightarrow> clock w' = clock w \<Longrightarrow> clock_unbounded w'"
  by (simp add: clock_unbounded_def)

lemma bitCell_returns:
  assumes "clock_unbounded w"
  shows "\<exists>r w1. bitCell GPIO w = Some (r, w1) \<and> clock w1 = clock w"
proof -
  from sensorLowHighWait_returns [OF assms, of GPIO] obtain ok w0
    where a: "sensorLowHighWait GPIO w = Some (ok, w0)" by blast
  from sensorLowHighWait_skip [OF a] have k: "clock w0 = clock w" by auto
  show ?thesis
  proof (cases ok)
    case True
    with a have "bitCell GPIO w =
        Some (Some (line w0 (reads w0)), skip 1 0 (delayMicroseconds 30 w0))"
      by (simp add: bitCell_def digitalRead_skip delayMicroseconds_def)
    moreover have "clock (skip 1 0 (delayMicroseconds 30 w0)) = clock w"
      by (simp add: k delayMicroseconds_def)
    ultimately show ?thesis by blast
  next
    case False
    with a have "bitCell GPIO w = Some (None, w0)"
      by (simp add: bitCell_def)
    with k show ?thesis by blast
  qed
qed

lemma retrieveByte_loop_returns:
  "clock_unbounded w \<Longrightarrow>
   \<exists>b w'. retrieveByte_loop GPIO bit_i result w = Some (b, w') \<and> clock w' = clock w"
proof (induction "8 - bit_i" arbitrary: bit_i result w)
  case 0
  then show ?case by (simp add: loop_done)
next
  case (Suc n)
  then have lt: "bit_i < 8" by simp
  from bitCell_returns [OF Suc.prems, of GPIO] obtain r w1
    where c: "bitCell GPIO w = Some (r, w1)" and k: "clock w1 = clock w" by blast
  show ?case
  proof (cases r)
    case None
    with c k lt show ?thesis by (simp add: loop_abort)
  next
    case (Some l)
    from Suc.hyps(2) have "n = 8 - Suc bit_i" by simp
    moreover from Suc.prems k have "clock_unbounded w1"
      by (rule clock_unbounded_cong)
    ultimately obtain b w' where "retrieveByte_loop GPIO (Suc bit_i) (shift_in result l) w1 = Some (b, w')"
      and "clock w' = clock w1"
      using Suc.hyps(1) [of "Suc bit_i" w1 "shift_in result l"] by blast
    with c k lt Some show ?thesis by (simp add: loop_cell)
  qed
qed

lemma retrieveByte_returns:
  "clock_unbounded w \<Longrightarrow> \<exists>b w'. retrieveByte GPIO w = Some (b, w') \<and> clock w' = clock w"
  unfolding retrieveByte_def by (rule retrieveByte_loop_returns)

lemma querySensor_loop_returns:
  "clock_unbounded w \<Longrightarrow>
   \<exists>r w'. querySensor_loop GPIO byte_i retrievedBytes results queryChecksum w = Some (r, w') \<and>
          clock w' = clock w"
proof (induction "5 - byte_i" arbitrary: byte_i retrievedBytes results queryChecksum w)
  case 0
  then show ?case by (subst querySensor_loop.simps) simp
next
  case (Suc n)
  then have lt: "byte_i < 5" by simp
  from retrieveByte_returns [OF Suc.prems, of GPIO] obtain b w1
    where rb: "retrieveByte GPIO w = Some (b, w1)" and k: "clock w1 = clock w" by blast
  from Suc.hyps(2) have n: "n = 5 - Suc byte_i" by simp
  from Suc.prems k have u: "clock_unbounded w1"
    by (rule clock_unbounded_cong)
  from Suc.hyps(1) [OF n u] k rb lt show ?case
    by (subst querySensor_loop.simps) (simp add: Let_def)
qed

lemma wakeSensor_clock: "clock (wakeSensor GPIO w) = clock w"
  by (simp add: wakeSensor_def pinMode_def delayMicroseconds_def digitalWrite_def delay_def
      gettimeofday_def setMaximumPriority_def sched_setscheduler_def)

lemma querySensor_returns:
  assumes "clock_unbounded w"
  shows "\<exists>r w'. querySensor GPIO results w = Some (r, w') \<and> clock w' = clock w"
proof -
  from assms have "clock_unbounded (wakeSensor GPIO w)"
    by (rule clock_unbounded_cong) (rule wakeSensor_clock)
  from sensorLowHighWait_returns [OF this, of GPIO] obtain ok w9
    where a: "sensorLowHighWait GPIO (wakeSensor GPIO w) = Some (ok, w9)" by blast
  from sensorLowHighWait_skip [OF a] have k: "clock w9 = clock w"
    by (auto simp: wakeSensor_clock)
  show ?thesis
  proof (cases ok)
    case False
    with a k show ?thesis by (auto simp: querySensor_unfold)
  next
    case True
    from assms k have "clock_unbounded w9"
      by (rule clock_unbounded_cong)
    from querySensor_loop_returns [OF this, of GPIO 0 "[0, 0, 0, 0, 0]" results 0]
    obtain x w10 where "querySensor_loop GPIO 0 [0, 0, 0, 0, 0] results 0 w9 = Some (x, w10)"
      and "clock w10 = clock w9" by blast
    with a k True show ?thesis
      by (cases x) (auto simp: querySensor_unfold gettimeofday_def setDefaultPriority_def
          sched_setscheduler_def)
  qed
qed

lemma parse_loop_returns:
  "clock_unbounded w \<Longrightarrow> \<exists>r w'. parseSensorOutput_loop n GPIO na w = Some (r, w')"
proof (induction n arbitrary: w)
  case 0
  then show ?case by simp
next
  case (Suc n)
  from querySensor_returns [OF Suc.prems, of GPIO "[0, 0, 0, 0]"] obtain ok sd w1
    where q: "querySensor GPIO [0, 0, 0, 0] w = Some ((ok, sd), w1)" and k: "clock w1 = clock w"
    by auto
  from Suc.prems k have "clock_unbounded (delay 2000 w1)"
    by (simp add: clock_unbounded_def delay_def)
  from Suc.IH [OF this] q show ?case
    by (auto simp: Let_def)
qed

lemma parseSensorOutput_returns:
  assumes "clock_unbounded w"
  shows "\<exists>out w'. parseSensorOutput GPIO na w = Some (out, w')"
proof (cases "setup_status w = - 1")
  case True
  then show ?thesis by (simp add: parseSensorOutput_failure)
next
  case False
  from parse_loop_returns [OF assms, of 5 GPIO na] False show ?thesis
    by (auto simp: parseSensorOutput_unfold)
qed

subsection \<open>The order of delays and samples, and plain decoding\<close>

lemma read_delay_order:
  "snd (digitalRead GPIO (delayMicroseconds us w)) \<noteq> delayMicroseconds us (snd (digitalRead GPIO w))"
proof
  assume "snd (digitalRead GPIO (delayMicroseconds us w)) = delayMicroseconds us (snd (digitalRead GPIO w))"
  then have "log (snd (digitalRead GPIO (delayMicroseconds us w))) =
      log (delayMicroseconds us (snd (digitalRead GPIO w)))"
    by simp
  then show False
    by (simp add: digitalRead_def delayMicroseconds_def)
qed

lemma bitCell_sample:
  assumes "bitCell GPIO w = Some (Some l, w1)"
  shows "\<exists>r t. l = line w r \<and> log w1 = At r t (DelayMicroseconds 30) # log w \<and>
               reads w1 = Suc r \<and> line w1 = line w"
proof -
  from assms obtain w0 where a: "sensorLowHighWait GPIO w = Some (True, w0)"
    and l: "l = line w0 (reads w0)" and w1: "w1 = skip 1 0 (delayMicroseconds 30 w0)"
    by (auto simp: bitCell_def digitalRead_skip delayMicroseconds_def split: option.splits if_splits)
  from sensorLowHighWait_skip [OF a] obtain x y where w0: "w0 = skip x y w" by blast
  have "l = line w (reads w0)"
    by (simp add: l w0)
  moreover have "log w1 = At (reads w0) (ticks w0) (DelayMicroseconds 30) # log w"
    by (simp add: w1 delayMicroseconds_def) (simp add: w0)
  moreover have "reads w1 = Suc (reads w0)" "line w1 = line w"
    by (simp_all add: w1 delayMicroseconds_def w0)
  ultimately show ?thesis by blast
qed

lemma cells_stamps:
  "cells GPIO k w = Some (ls, w') \<Longrightarrow>
   \<exists>stamps. length stamps = k \<and> ls = map (\<lambda>(r, t). line w r) stamps \<and>
            log w' = rev (map (\<lambda>(r, t). At r t (DelayMicroseconds 30)) stamps) @ log w \<and>
            line w' = line w"
proof (induction k arbitrary: w ls)
  case 0
  then show ?case by simp
next
  case (Suc k)
  from Suc.prems obtain l w1 ls' where c: "bitCell GPIO w = Some (Some l, w1)"
    and r: "cells GPIO k w1 = Some (ls', w')" and ls: "ls = l # ls'"
    by (auto split: option.splits prod.splits)
  from bitCell_sample [OF c] obtain r0 t0 where l: "l = line w r0"
    and lg: "log w1 = At r0 t0 (DelayMicroseconds 30) # log w" and ln: "line w1 = line w"
    by blast
  from Suc.IH [OF r] obtain stamps where n: "length stamps = k"
    and m: "ls' = map (\<lambda>(r, t). line w1 r) stamps"
    and g: "log w' = rev (map (\<lambda>(r, t). At r t (DelayMicroseconds 30)) stamps) @ log w1"
    and e: "line w' = line w1"
    by blast
  let ?s = "(r0, t0) # stamps"
  have "length ?s = Suc k" by (simp add: n)
  moreover have "ls = map (\<lambda>(r, t). line w r) ?s"
    by (simp add: ls l m ln)
  moreover have "log w' = rev (map (\<lambda>(r, t). At r t (DelayMicroseconds 30)) ?s) @ log w"
    by (simp add: g lg)
  moreover have "line w' = line w" by (simp add: e ln)
  ultimately show ?case by blast
qed

lemma bitCell_cases:
  "bitCell GPIO w = None \<or> (\<exists>w1. bitCell GPIO w = Some (None, w1)) \<or>
   (\<exists>l w1. bitCell GPIO w = Some (Some l, w1))"
  by (cases "bitCell GPIO w") auto

lemma retrieveByte_loop_cases:
  "retrieveByte_loop GPIO bit_i result w = Some (b, w') \<Longrightarrow>
   (\<exists>ls. cells GPIO (8 - bit_i) w = Some (ls, w') \<and> b = foldl shift_in result ls) \<or>
   (b = 0 \<and> (\<exists>k ls w1. k < 8 - bit_i \<and> cells GPIO k w = Some (ls, w1) \<and>
                        bitCell GPIO w1 = Some (None, w')))"
proof (induction "8 - bit_i" arbitrary: bit_i result w)
  case 0
  then show ?case by (simp add: loop_done)
next
  case (Suc n)
  then have lt: "bit_i < 8" by simp
  from Suc.hyps(2) have n: "n = 8 - Suc bit_i" and m: "8 - bit_i = Suc n" by simp_all
  from bitCell_cases [of GPIO w] show ?case
  proof (elim disjE exE)
    assume "bitCell GPIO w = None"
    with Suc.prems lt show ?thesis by (simp add: loop_None)
  next
    fix w1 assume c: "bitCell GPIO w = Some (None, w1)"
    with Suc.prems lt have "b = 0" "w' = w1" by (simp_all add: loop_abort)
    with c have "b = 0 \<and> (0 :: nat) < 8 - bit_i \<and> cells GPIO 0 w = Some ([], w) \<and>
        bitCell GPIO w = Some (None, w')"
      using lt by simp
    then show ?thesis by blast
  next
    fix l w1 assume c: "bitCell GPIO w = Some (Some l, w1)"
    with Suc.prems lt have "retrieveByte_loop GPIO (Suc bit_i) (shift_in result l) w1 = Some (b, w')"
      by (simp add: loop_cell)
    from Suc.hyps(1) [OF n this] show ?thesis
    proof
      assume "\<exists>ls. cells GPIO (8 - Suc bit_i) w1 = Some (ls, w') \<and>
          b = foldl shift_in (shift_in result l) ls"
      then obtain ls where "cells GPIO n w1 = Some (ls, w')"
        and "b = foldl shift_in (shift_in result l) ls"
        by (auto simp: n)
      with c have "cells GPIO (8 - bit_i) w = Some (l # ls, w') \<and>
          b = foldl shift_in result (l # ls)"
        by (simp add: m)
      then show ?thesis by blast
    next
      assume "b = 0 \<and> (\<exists>k ls w2. k < 8 - Suc bit_i \<and> cells GPIO k w1 = Some (ls, w2) \<and>
          bitCell GPIO w2 = Some (None, w'))"
      then obtain k ls w2 where "b = 0" "k < n" "cells GPIO k w1 = Some (ls, w2)"
        "bitCell GPIO w2 = Some (None, w')"
        by (auto simp: n)
      with c have "b = 0 \<and> Suc k < 8 - bit_i \<and> cells GPIO (Suc k) w = Some (l # ls, w2) \<and>
          bitCell GPIO w2 = Some (None, w')"
        by (simp add: m)
      then show ?thesis by blast
    qed
  qed
qed

lemma retrieveByte_nonzero:
  assumes "retrieveByte GPIO w = Some (b, w')" and "b \<noteq> 0"
  shows "\<exists>ls. cells GPIO 8 w = Some (ls, w') \<and> unat b = msb_first ls"
proof -
  from retrieveByte_loop_cases [of GPIO 0 0 w b w'] assms
  obtain ls where c: "cells GPIO 8 w = Some (ls, w')"
    by (auto simp: retrieveByte_def)
  from retrieveByte_cells [OF c] assms(1) have "unat b = msb_first ls" by simp
  with c show ?thesis by blast
qed

lemma parseReading_plain:
  assumes "b2 AND 0x80 = 0"
  shows "parseReading [b0, b1, b2, b3] =
         \<lparr>temperature = real_of_int (uint b2 * 256 + uint b3) / 10,
          humidity = real_of_int (uint b0 * 256 + uint b1) / 10\<rparr>"
  using assms by (simp add: parseReading_def)

lemma within_plain:
  assumes "real_of_int (uint (b2 :: uint8_t) * 256 + uint (b3 :: uint8_t)) / 10 \<le> SENSOR_TMP_MAX"
    and "real_of_int (uint (b0 :: uint8_t) * 256 + uint (b1 :: uint8_t)) / 10 \<le> SENSOR_HUM_MAX"
  shows "withinCapabilities
           \<lparr>temperature = real_of_int (uint b2 * 256 + uint b3) / 10,
            humidity = real_of_int (uint b0 * 256 + uint b1) / 10\<rparr>"
proof -
  have d: "0 \<le> x / 10" if "0 \<le> x" for x :: real
    using that by simp
  have "0 \<le> uint b2 * 256 + uint b3"
    using uint_ge_0 [of b2] uint_ge_0 [of b3] by linarith
  then have "0 \<le> real_of_int (uint b2 * 256 + uint b3)"
    by linarith
  then have t: "0 \<le> real_of_int (uint b2 * 256 + uint b3) / 10"
    by (rule d)
  have "0 \<le> uint b0 * 256 + uint b1"
    using uint_ge_0 [of b0] uint_ge_0 [of b1] by linarith
  then have "0 \<le> real_of_int (uint b0 * 256 + uint b1)"
    by linarith
  then have h: "0 \<le> real_of_int (uint b0 * 256 + uint b1) / 10"
    by (rule d)
  from t have "- 40 \<le> real_of_int (uint b2 * 256 + uint b3) / 10"
    by linarith
  with h assms show ?thesis
    unfolding withinCapabilities_def SENSOR_TMP_MIN_def SENSOR_HUM_MIN_def
    by (simp only: sensorOutput.simps)
qed

section \<open>The claims\<close>

subsection \<open>Decoding a negative temperature\<close>

text \<open>
  Claim C1: when the sign bit 0x80 of byte 2 is set, the magnitude is formed from byte 2
  with that bit masked off, so the bytes 0x81, 0x08 decode to -26.4.

  The code does not do so. Line 231 forms the value from the whole of byte 2 and line 236
  only negates it: on sensor data 0x00, 0x00, 0x81, 0x08 the temperature is
  -(0x81 * 256 + 0x08) / 10 = -3303.2, and the range check of line 240 rejects it.
\<close>

theorem parseReading_keeps_sign_bit:
  "parseReading [0x00, 0x00, 0x81, 0x08] = \<lparr>temperature = - 3303.2, humidity = 0\<rparr> \<and>
   \<not> withinCapabilities (parseReading [0x00, 0x00, 0x81, 0x08])"
  by (simp add: parseReading_def withinCapabilities_def SENSOR_TMP_MIN_def)

subsection \<open>The scheduling policy on the exit paths\<close>

text \<open>
  Claim C2: on every exit path of \<open>querySensor\<close> the scheduling policy raised at its start
  is back at the default before the function returns.

  The return of lines 163 to 165 comes before \<open>setDefaultPriority\<close>: whenever a process
  with the privilege gets no acknowledgement, \<open>querySensor\<close> returns failure in the very
  world the failed wait left, and the policy of that world is \<open>SCHED_FIFO\<close>.
\<close>

theorem querySensor_noack_stays_elevated:
  assumes "privileged w"
    and "sensorLowHighWait GPIO (wakeSensor GPIO w) = Some (False, w0)"
  shows "querySensor GPIO results w = Some ((False, results), w0) \<and> policy w0 = SCHED_FIFO"
  using querySensor_noack [OF assms(2)] sensorLowHighWait_policy [OF assms(2)]
    wakeSensor_policy [OF assms(1)]
  by simp

theorem querySensor_noack_stays_elevated_witness:
  "policy stuck_world = SCHED_OTHER \<and> privileged stuck_world \<and>
   sensorLowHighWait 7 (wakeSensor 7 stuck_world) =
     Some (False, world_at stuck_line slow_clock 1 3 SCHED_FIFO (wake_log 7 0 1 [])) \<and>
   querySensor 7 [0, 0, 0, 0] stuck_world =
     Some ((False, [0, 0, 0, 0]), world_at stuck_line slow_clock 1 3 SCHED_FIFO (wake_log 7 0 1 [])) \<and>
   policy (world_at stuck_line slow_clock 1 3 SCHED_FIFO (wake_log 7 0 1 [])) = SCHED_FIFO"
proof -
  have p: "privileged stuck_world"
    by (simp add: stuck_world_def world_at_def)
  have a: "sensorLowHighWait 7 (wakeSensor 7 stuck_world) =
      Some (False, world_at stuck_line slow_clock 1 3 SCHED_FIFO (wake_log 7 0 1 []))"
    by (simp add: stuck_world_def wait_stuck slow_clock_passes stuck_line_def numeral_3_eq_3)
  from querySensor_noack_stays_elevated [OF p a, of "[0, 0, 0, 0]"] p a show ?thesis
    by (simp add: stuck_world_def)
qed

subsection \<open>The elapsed-time check\<close>

text \<open>
  Claim C3: a session that reaches the elapsed-time check, that is one whose
  acknowledgement wait succeeds and whose five bytes are retrieved, returns failure when
  the time from the first timestamp to the second has a non-zero seconds part, or zero
  seconds and more than 16000 microseconds, whatever the five bytes are.
\<close>

theorem querySensor_over_budget_fails:
  assumes "sensorLowHighWait GPIO (wakeSensor GPIO w) = Some (True, w0)"
    and "retrieveByte GPIO w0 = Some (b0, w1)"
    and "retrieveByte GPIO w1 = Some (b1, w2)"
    and "retrieveByte GPIO w2 = Some (b2, w3)"
    and "retrieveByte GPIO w3 = Some (b3, w4)"
    and "retrieveByte GPIO w4 = Some (b4, w5)"
    and "took = timersub (fst (gettimeofday w5)) (fst (gettimeofday (setMaximumPriority w)))"
    and "tv_sec took \<noteq> 0 \<or> (tv_sec took = 0 \<and> tv_usec took > 16000)"
  shows "\<exists>results1 w'. querySensor GPIO results w = Some ((False, results1), w')"
proof -
  from assms(7) have "took = timersub (clock w5 (ticks w5)) (clock w (ticks w))"
    by (simp add: gettimeofday_def setMaximumPriority_def sched_setscheduler_def)
  with assms(8) show ?thesis
    by (auto simp: querySensor_reached [OF assms(1-6)] Let_def)
qed

theorem querySensor_over_budget_fails_witness:
  "timersub (late_clock 83) (late_clock 0) = \<lparr>tv_sec = 0, tv_usec = 18340\<rparr> \<and>
   (uint (0x02 :: uint8_t) + uint (0x8C :: uint8_t) + uint (0x01 :: uint8_t) + uint (0x08 :: uint8_t)) mod 256
     = uint (0x97 :: uint8_t) \<and>
   (\<exists>results1 w'. querySensor 7 [0, 0, 0, 0] late_world = Some ((False, results1), w'))"
proof -
  have t: "timersub (late_clock 83) (late_clock 0) = \<lparr>tv_sec = 0, tv_usec = 18340\<rparr>"
    by (simp add: late_clock_def timersub_def)
  have "\<exists>results1 w'. querySensor 7 [0, 0, 0, 0] late_world = Some ((False, results1), w')"
    unfolding late_world_def
    by (rule querySensor_over_budget_fails [OF sensor_ack sensor_byte0 sensor_byte1 sensor_byte2
          sensor_byte3 sensor_byte4 refl])
      (simp add: t)
  with t show ?thesis by simp
qed

subsection \<open>The checksum\<close>

text \<open>
  Claim C4: when the five bytes are retrieved and the elapsed time is zero seconds and at
  most 16000 microseconds, the session returns, its result is true exactly when the sum of
  the first four bytes modulo 256 is the fifth, and the caller's array holds the first four.
\<close>

theorem querySensor_checksum_iff:
  assumes "sensorLowHighWait GPIO (wakeSensor GPIO w) = Some (True, w0)"
    and "retrieveByte GPIO w0 = Some (b0, w1)"
    and "retrieveByte GPIO w1 = Some (b1, w2)"
    and "retrieveByte GPIO w2 = Some (b2, w3)"
    and "retrieveByte GPIO w3 = Some (b3, w4)"
    and "retrieveByte GPIO w4 = Some (b4, w5)"
    and "took = timersub (fst (gettimeofday w5)) (fst (gettimeofday (setMaximumPriority w)))"
    and "tv_sec took = 0" and "tv_usec took \<le> 16000"
  shows "querySensor GPIO results w =
         Some (((uint b0 + uint b1 + uint b2 + uint b3) mod 256 = uint b4,
                results[0 := b0, 1 := b1, 2 := b2, 3 := b3]),
               setDefaultPriority (snd (gettimeofday w5)))"
proof -
  from assms(7) have "took = timersub (clock w5 (ticks w5)) (clock w (ticks w))"
    by (simp add: gettimeofday_def setMaximumPriority_def sched_setscheduler_def)
  with assms(8,9) show ?thesis
    by (simp add: querySensor_reached [OF assms(1-6)] Let_def del: One_nat_def)
qed

theorem querySensor_checksum_iff_witness:
  "timersub (sensor_clock 83) (sensor_clock 0) = \<lparr>tv_sec = 0, tv_usec = 14190\<rparr> \<and>
   querySensor 7 [0, 0, 0, 0] sensor_world =
     Some ((True, [0x02, 0x8C, 0x01, 0x08]),
           world_at sensor_line sensor_clock 122 84 SCHED_OTHER (session_log 7 []))"
proof -
  have t: "timersub (sensor_clock 83) (sensor_clock 0) = \<lparr>tv_sec = 0, tv_usec = 14190\<rparr>"
    by (simp add: sensor_clock_def timersub_def)
  have "querySensor 7 [0, 0, 0, 0] sensor_world =
     Some ((True, [0x02, 0x8C, 0x01, 0x08]),
           world_at sensor_line sensor_clock 122 84 SCHED_OTHER (session_log 7 []))"
    unfolding sensor_world_def
    by (subst querySensor_checksum_iff [OF sensor_ack sensor_byte0 sensor_byte1 sensor_byte2
          sensor_byte3 sensor_byte4 refl])
      (simp_all add: t session_log_def)
  with t show ?thesis by simp
qed

subsection \<open>The bound on the attempts\<close>

text \<open>
  Claim C5: \<open>parseSensorOutput\<close> makes at most five sessions, and under a clock that
  passes every deadline it does return; when five attempts in a row fail, or succeed with
  values outside the documented ranges, it returns the value \<open>SENSOR_NA\<close> in both fields,
  having made exactly five sessions.
\<close>

theorem parseSensorOutput_five_attempts:
  "(parseSensorOutput GPIO SENSOR_NA w = Some (out, w') \<longrightarrow>
      attempts GPIO w' \<le> attempts GPIO w + 5) \<and>
   (clock_unbounded w \<longrightarrow> (\<exists>out w'. parseSensorOutput GPIO SENSOR_NA w = Some (out, w'))) \<and>
   (setup_status w \<noteq> - 1 \<and> failedRun 5 GPIO w = Some w5 \<longrightarrow>
      parseSensorOutput GPIO SENSOR_NA w =
        Some (Returned \<lparr>temperature = SENSOR_NA, humidity = SENSOR_NA\<rparr>, w5) \<and>
      attempts GPIO w5 = attempts GPIO w + 5)"
  using parseSensorOutput_attempts parseSensorOutput_exhausted parseSensorOutput_returns
  by blast

theorem parseSensorOutput_five_attempts_witness:
  "setup_status stuck_world \<noteq> - 1 \<and> clock_unbounded stuck_world \<and>
   failedRun 5 7 stuck_world =
     Some (world_at stuck_line slow_clock 5 15 SCHED_FIFO
       (stuck_log 7)) \<and>
   parseSensorOutput 7 (- 999) stuck_world =
     Some (Returned \<lparr>temperature = - 999, humidity = - 999\<rparr>,
       world_at stuck_line slow_clock 5 15 SCHED_FIFO
       (stuck_log 7)) \<and>
   attempts 7 (world_at stuck_line slow_clock 5 15 SCHED_FIFO
       (stuck_log 7)) = attempts 7 stuck_world + 5"
proof -
  have s: "setup_status stuck_world \<noteq> - 1"
    by (simp add: stuck_world_def)
  have u: "clock_unbounded stuck_world"
    unfolding stuck_world_def by (rule slow_clock_unbounded)
  have f: "failedRun 5 7 stuck_world =
     Some (world_at stuck_line slow_clock 5 15 SCHED_FIFO
       (stuck_log 7))"
    unfolding stuck_world_def by (rule stuck_failedRun)
  from parseSensorOutput_five_attempts [of 7 "- 999" stuck_world, THEN conjunct2, THEN conjunct2,
      rule_format, OF conjI, OF s f] s u f
  show ?thesis by simp
qed

subsection \<open>No negative temperature is returned\<close>

text \<open>
  Claim C6: whenever \<open>parseSensorOutput\<close> returns something else than the pair of
  \<open>SENSOR_NA\<close>, the temperature is not negative: with the sign bit of byte 2 set the
  decoded temperature is at most -3276.8, which fails the range check.
\<close>

theorem parseSensorOutput_never_negative:
  "(parseSensorOutput GPIO SENSOR_NA w = Some (Returned r, w') \<and>
    r \<noteq> \<lparr>temperature = SENSOR_NA, humidity = SENSOR_NA\<rparr> \<longrightarrow> 0 \<le> temperature r) \<and>
   (sensorData ! 2 AND 0x80 \<noteq> 0 \<longrightarrow>
      temperature (parseReading sensorData) \<le> - 3276.8 \<and>
      \<not> withinCapabilities (parseReading sensorData))"
proof (intro conjI impI)
  assume a: "parseSensorOutput GPIO SENSOR_NA w = Some (Returned r, w') \<and>
    r \<noteq> \<lparr>temperature = SENSOR_NA, humidity = SENSOR_NA\<rparr>"
  with parseSensorOutput_cases [of GPIO SENSOR_NA w r w']
  obtain sd where "r = parseReading sd" "withinCapabilities (parseReading sd)"
    by auto
  then show "0 \<le> temperature r"
    by (simp add: withinCapabilities_nonneg)
next
  assume s: "sensorData ! 2 AND 0x80 \<noteq> 0"
  then show t: "temperature (parseReading sensorData) \<le> - 3276.8"
    by (rule parseReading_sign_bit)
  then show "\<not> withinCapabilities (parseReading sensorData)"
    by (simp add: withinCapabilities_def SENSOR_TMP_MIN_def)
qed

theorem parseSensorOutput_never_negative_witness:
  "parseSensorOutput 7 (- 999) sensor_world =
     Some (Returned \<lparr>temperature = 26.4, humidity = 65.2\<rparr>,
           world_at sensor_line sensor_clock 122 84 SCHED_OTHER (session_log 7 [])) \<and>
   \<lparr>temperature = 26.4, humidity = 65.2\<rparr> \<noteq> \<lparr>temperature = - 999, humidity = - 999\<rparr> \<and>
   0 \<le> temperature \<lparr>temperature = 26.4, humidity = 65.2\<rparr> \<and>
   [0x00, 0x00, 0x81, 0x08 :: uint8_t] ! 2 AND 0x80 \<noteq> 0 \<and>
   temperature (parseReading [0x00, 0x00, 0x81, 0x08]) \<le> - 3276.8 \<and>
   \<not> withinCapabilities (parseReading [0x00, 0x00, 0x81, 0x08])"
proof -
  have p: "parseSensorOutput 7 (- 999) sensor_world =
     Some (Returned \<lparr>temperature = 26.4, humidity = 65.2\<rparr>,
           world_at sensor_line sensor_clock 122 84 SCHED_OTHER (session_log 7 []))"
    unfolding sensor_world_def by (rule sensor_parse)
  have n: "\<lparr>temperature = 26.4, humidity = 65.2\<rparr> \<noteq> \<lparr>temperature = - 999, humidity = - 999 :: real\<rparr>"
    by simp
  have b: "[0x00, 0x00, 0x81, 0x08 :: uint8_t] ! 2 AND 0x80 \<noteq> 0"
    by simp
  from parseSensorOutput_never_negative [of 7 "- 999" sensor_world _ _ "[0x00, 0x00, 0x81, 0x08]",
      THEN conjunct1, rule_format, OF conjI, OF p n]
    parseSensorOutput_never_negative [of 7 "- 999" sensor_world _ _ "[0x00, 0x00, 0x81, 0x08]",
      THEN conjunct2, rule_format, OF b] p n b
  show ?thesis by simp
qed

subsection \<open>Returned measurements are within the documented ranges\<close>

text \<open>
  Claim C7: whatever \<open>parseSensorOutput\<close> returns, other than the pair of \<open>SENSOR_NA\<close>,
  has its temperature and its humidity within the documented ranges; and once a session
  succeeds with values inside both ranges, after fewer than five failed attempts, its
  decoded values are returned in the world that session left: no delay and no further
  session follow.
\<close>

theorem parseSensorOutput_within_capabilities:
  "(parseSensorOutput GPIO SENSOR_NA w = Some (Returned r, w') \<and>
    r \<noteq> \<lparr>temperature = SENSOR_NA, humidity = SENSOR_NA\<rparr> \<longrightarrow>
      SENSOR_TMP_MIN \<le> temperature r \<and> temperature r \<le> SENSOR_TMP_MAX \<and>
      SENSOR_HUM_MIN \<le> humidity r \<and> humidity r \<le> SENSOR_HUM_MAX) \<and>
   (setup_status w \<noteq> - 1 \<and> k < 5 \<and> failedRun k GPIO w = Some wk \<and>
    querySensor GPIO [0x00, 0x00, 0x00, 0x00] wk = Some ((True, sensorData), w1) \<and>
    withinCapabilities (parseReading sensorData) \<longrightarrow>
      parseSensorOutput GPIO SENSOR_NA w = Some (Returned (parseReading sensorData), w1) \<and>
      attempts GPIO w1 = attempts GPIO w + k + 1)"
proof (intro conjI impI)
  assume "parseSensorOutput GPIO SENSOR_NA w = Some (Returned r, w') \<and>
    r \<noteq> \<lparr>temperature = SENSOR_NA, humidity = SENSOR_NA\<rparr>"
  with parseSensorOutput_cases [of GPIO SENSOR_NA w r w'] have c: "withinCapabilities r"
    by auto
  then show "SENSOR_TMP_MIN \<le> temperature r" "temperature r \<le> SENSOR_TMP_MAX"
    "SENSOR_HUM_MIN \<le> humidity r" "humidity r \<le> SENSOR_HUM_MAX"
    by (simp_all add: withinCapabilities_def)
next
  assume a: "setup_status w \<noteq> - 1 \<and> k < 5 \<and> failedRun k GPIO w = Some wk \<and>
    querySensor GPIO [0x00, 0x00, 0x00, 0x00] wk = Some ((True, sensorData), w1) \<and>
    withinCapabilities (parseReading sensorData)"
  then show "parseSensorOutput GPIO SENSOR_NA w = Some (Returned (parseReading sensorData), w1)"
    by (intro parseSensorOutput_success(1) [of w k GPIO wk]) simp_all
  from a show "attempts GPIO w1 = attempts GPIO w + k + 1"
    by (intro parseSensorOutput_success(2) [of w k GPIO wk sensorData]) simp_all
qed

theorem parseSensorOutput_within_capabilities_witness:
  "querySensor 7 [0x00, 0x00, 0x00, 0x00] sensor_world =
     Some ((True, [0x02, 0x8C, 0x01, 0x08]),
           world_at sensor_line sensor_clock 122 84 SCHED_OTHER (session_log 7 [])) \<and>
   withinCapabilities (parseReading [0x02, 0x8C, 0x01, 0x08]) \<and>
   parseSensorOutput 7 (- 999) sensor_world =
     Some (Returned (parseReading [0x02, 0x8C, 0x01, 0x08]),
           world_at sensor_line sensor_clock 122 84 SCHED_OTHER (session_log 7 [])) \<and>
   attempts 7 (world_at sensor_line sensor_clock 122 84 SCHED_OTHER (session_log 7 [])) =
     attempts 7 sensor_world + 1 \<and>
   parseReading [0x02, 0x8C, 0x01, 0x08] \<noteq> \<lparr>temperature = - 999, humidity = - 999\<rparr> \<and>
   SENSOR_TMP_MIN \<le> temperature (parseReading [0x02, 0x8C, 0x01, 0x08]) \<and>
   temperature (parseReading [0x02, 0x8C, 0x01, 0x08]) \<le> SENSOR_TMP_MAX \<and>
   SENSOR_HUM_MIN \<le> humidity (parseReading [0x02, 0x8C, 0x01, 0x08]) \<and>
   humidity (parseReading [0x02, 0x8C, 0x01, 0x08]) \<le> SENSOR_HUM_MAX"
proof -
  let ?W = "world_at sensor_line sensor_clock 122 84 SCHED_OTHER (session_log 7 [])"
  let ?sd = "[0x02, 0x8C, 0x01, 0x08] :: uint8_t list"
  have s: "setup_status sensor_world \<noteq> - 1"
    by (simp add: sensor_world_def)
  have f: "failedRun 0 7 sensor_world = Some sensor_world"
    by simp
  have q: "querySensor 7 [0x00, 0x00, 0x00, 0x00] sensor_world = Some ((True, ?sd), ?W)"
    unfolding sensor_world_def using sensor_session [of 7 "[0, 0, 0, 0]" SCHED_OTHER "[]"] by simp
  have c: "withinCapabilities (parseReading ?sd)"
    by (simp add: scenario_reading withinCapabilities_def SENSOR_TMP_MIN_def
      SENSOR_TMP_MAX_def SENSOR_HUM_MIN_def SENSOR_HUM_MAX_def)
  have n: "parseReading ?sd \<noteq> \<lparr>temperature = - 999, humidity = - 999\<rparr>"
    by (simp add: scenario_reading)
  have two: "parseSensorOutput 7 (- 999) sensor_world = Some (Returned (parseReading ?sd), ?W) \<and>
      attempts 7 ?W = attempts 7 sensor_world + 0 + 1"
    using parseSensorOutput_within_capabilities [of 7 "- 999" sensor_world _ _ 0 sensor_world ?sd ?W,
        THEN conjunct2] s f q c by simp
  then have p: "parseSensorOutput 7 (- 999) sensor_world = Some (Returned (parseReading ?sd), ?W)"
    by simp
  from parseSensorOutput_within_capabilities [of 7 "- 999" sensor_world "parseReading ?sd" ?W,
      THEN conjunct1, rule_format, OF conjI, OF p n] two q c n
  show ?thesis by simp
qed

subsection \<open>The end-to-end scenario\<close>

text \<open>
  Claim C8: a session that retrieves five bytes within the time budget, with a matching
  checksum, a clear sign bit and values inside the documented ranges, succeeds, and
  \<open>parseSensorOutput\<close> returns humidity (byte 0 * 256 + byte 1) / 10 and temperature
  (byte 2 * 256 + byte 3) / 10; on the payload 0x02, 0x8C, 0x01, 0x08, 0x97 the checksum
  check passes and the values returned are temperature 26.4 and humidity 65.2.
\<close>

theorem parseSensorOutput_scenario:
  assumes "setup_status w \<noteq> - 1"
    and "sensorLowHighWait GPIO (wakeSensor GPIO w) = Some (True, w0)"
    and "retrieveByte GPIO w0 = Some (b0, w1)"
    and "retrieveByte GPIO w1 = Some (b1, w2)"
    and "retrieveByte GPIO w2 = Some (b2, w3)"
    and "retrieveByte GPIO w3 = Some (b3, w4)"
    and "retrieveByte GPIO w4 = Some (b4, w5)"
    and "took = timersub (fst (gettimeofday w5)) (fst (gettimeofday (setMaximumPriority w)))"
    and "tv_sec took = 0" and "tv_usec took \<le> 16000"
  shows "((uint b0 + uint b1 + uint b2 + uint b3) mod 256 = uint b4 \<and> b2 AND 0x80 = 0 \<and>
          real_of_int (uint b2 * 256 + uint b3) / 10 \<le> SENSOR_TMP_MAX \<and>
          real_of_int (uint b0 * 256 + uint b1) / 10 \<le> SENSOR_HUM_MAX \<longrightarrow>
            querySensor GPIO [0x00, 0x00, 0x00, 0x00] w =
              Some ((True, [b0, b1, b2, b3]), setDefaultPriority (snd (gettimeofday w5))) \<and>
            parseSensorOutput GPIO SENSOR_NA w =
              Some (Returned \<lparr>temperature = real_of_int (uint b2 * 256 + uint b3) / 10,
                              humidity = real_of_int (uint b0 * 256 + uint b1) / 10\<rparr>,
                    setDefaultPriority (snd (gettimeofday w5)))) \<and>
         (b0 = 0x02 \<and> b1 = 0x8C \<and> b2 = 0x01 \<and> b3 = 0x08 \<and> b4 = 0x97 \<longrightarrow>
            querySensor GPIO [0x00, 0x00, 0x00, 0x00] w =
              Some ((True, [0x02, 0x8C, 0x01, 0x08]), setDefaultPriority (snd (gettimeofday w5))) \<and>
            parseSensorOutput GPIO SENSOR_NA w =
              Some (Returned \<lparr>temperature = 26.4, humidity = 65.2\<rparr>,
                    setDefaultPriority (snd (gettimeofday w5))))"
proof -
  let ?W = "setDefaultPriority (snd (gettimeofday w5))"
  from assms(8) have "took = timersub (clock w5 (ticks w5)) (clock w (ticks w))"
    by (simp add: gettimeofday_def setMaximumPriority_def sched_setscheduler_def)
  with assms(9,10)
  have q: "querySensor GPIO [0x00, 0x00, 0x00, 0x00] w =
      Some (((uint b0 + uint b1 + uint b2 + uint b3) mod 256 = uint b4, [b0, b1, b2, b3]), ?W)"
    by (simp add: querySensor_reached [OF assms(2-7)] Let_def)
  have f: "failedRun 0 GPIO w = Some w" by simp
  have general: "querySensor GPIO [0x00, 0x00, 0x00, 0x00] w = Some ((True, [b0, b1, b2, b3]), ?W) \<and>
      parseSensorOutput GPIO SENSOR_NA w =
        Some (Returned \<lparr>temperature = real_of_int (uint b2 * 256 + uint b3) / 10,
                        humidity = real_of_int (uint b0 * 256 + uint b1) / 10\<rparr>, ?W)"
    if c: "(uint b0 + uint b1 + uint b2 + uint b3) mod 256 = uint b4" and s: "b2 AND 0x80 = 0"
      and t: "real_of_int (uint b2 * 256 + uint b3) / 10 \<le> SENSOR_TMP_MAX"
      and h: "real_of_int (uint b0 * 256 + uint b1) / 10 \<le> SENSOR_HUM_MAX"
  proof -
    from q c have q': "querySensor GPIO [0x00, 0x00, 0x00, 0x00] w = Some ((True, [b0, b1, b2, b3]), ?W)"
      by simp
    have "withinCapabilities (parseReading [b0, b1, b2, b3])"
      by (simp only: parseReading_plain [OF s] within_plain [OF t h])
    from parseSensorOutput_success(1) [OF assms(1) _ f q' this, of SENSOR_NA] q'
    show ?thesis
      by (simp only: parseReading_plain [OF s])
  qed
  have special: "querySensor GPIO [0x00, 0x00, 0x00, 0x00] w =
        Some ((True, [0x02, 0x8C, 0x01, 0x08]), ?W) \<and>
      parseSensorOutput GPIO SENSOR_NA w =
        Some (Returned \<lparr>temperature = 26.4, humidity = 65.2\<rparr>, ?W)"
    if e: "b0 = 0x02 \<and> b1 = 0x8C \<and> b2 = 0x01 \<and> b3 = 0x08 \<and> b4 = 0x97"
  proof -
    from e have c: "(uint b0 + uint b1 + uint b2 + uint b3) mod 256 = uint b4" and s: "b2 AND 0x80 = 0"
      and t: "real_of_int (uint b2 * 256 + uint b3) / 10 \<le> SENSOR_TMP_MAX"
      and h: "real_of_int (uint b0 * 256 + uint b1) / 10 \<le> SENSOR_HUM_MAX"
      by (simp_all add: SENSOR_TMP_MAX_def SENSOR_HUM_MAX_def)
    from general [OF c s t h] e show ?thesis
      by simp
  qed
  from general special show ?thesis by blast
qed

theorem parseSensorOutput_scenario_witness:
  "timersub (sensor_clock 83) (sensor_clock 0) = \<lparr>tv_sec = 0, tv_usec = 14190\<rparr> \<and>
   querySensor 7 [0x00, 0x00, 0x00, 0x00] sensor_world =
     Some ((True, [0x02, 0x8C, 0x01, 0x08]),
           world_at sensor_line sensor_clock 122 84 SCHED_OTHER (session_log 7 [])) \<and>
   parseSensorOutput 7 (- 999) sensor_world =
     Some (Returned \<lparr>temperature = real_of_int (uint (0x01 :: uint8_t) * 256 + uint (0x08 :: uint8_t)) / 10,
                     humidity = real_of_int (uint (0x02 :: uint8_t) * 256 + uint (0x8C :: uint8_t)) / 10\<rparr>,
           world_at sensor_line sensor_clock 122 84 SCHED_OTHER (session_log 7 [])) \<and>
   parseSensorOutput 7 (- 999) sensor_world =
     Some (Returned \<lparr>temperature = 26.4, humidity = 65.2\<rparr>,
           world_at sensor_line sensor_clock 122 84 SCHED_OTHER (session_log 7 []))"
proof -
  have t: "timersub (sensor_clock 83) (sensor_clock 0) = \<lparr>tv_sec = 0, tv_usec = 14190\<rparr>"
    by (simp add: sensor_clock_def timersub_def)
  have s: "setup_status (world_at sensor_line sensor_clock 0 0 SCHED_OTHER []) \<noteq> - 1"
    by simp
  have k: "tv_sec (timersub (fst (gettimeofday (world_at sensor_line sensor_clock 122 83 SCHED_FIFO
        (byte_log 98 67 (byte_log 74 51 (byte_log 50 35 (byte_log 26 19 (byte_log 2 3
          (wake_log 7 0 1 [])))))))))
      (fst (gettimeofday (setMaximumPriority (world_at sensor_line sensor_clock 0 0 SCHED_OTHER []))))) = 0"
    "tv_usec (timersub (fst (gettimeofday (world_at sensor_line sensor_clock 122 83 SCHED_FIFO
        (byte_log 98 67 (byte_log 74 51 (byte_log 50 35 (byte_log 26 19 (byte_log 2 3
          (wake_log 7 0 1 [])))))))))
      (fst (gettimeofday (setMaximumPriority (world_at sensor_line sensor_clock 0 0 SCHED_OTHER []))))) \<le> 16000"
    by (simp_all add: t)
  note th = parseSensorOutput_scenario [OF s sensor_ack sensor_byte0 sensor_byte1 sensor_byte2
      sensor_byte3 sensor_byte4 refl k, where SENSOR_NA = "- 999"]
  from th [THEN conjunct2] th [THEN conjunct1] t show ?thesis
    unfolding sensor_world_def
    by (simp add: session_log_def SENSOR_TMP_MAX_def SENSOR_HUM_MAX_def)
qed

subsection \<open>The byte sampler\<close>

text \<open>
  Claim C9: \<open>retrieveByte\<close> makes a byte of exactly eight bit cells, the first sampled
  level being the most significant bit, each cell a wait for the low-to-high transition, a
  delay of 30 microseconds and then a sample of the line; and when the wait of a cell
  fails, after any number of sampled cells, it returns the byte 0 in the world that wait
  left.

  The order of delay and sample is read off the log: the run adds exactly eight delays of
  30 microseconds, and the level of each cell is what the line returns at the read whose
  number the cell's delay is logged with, that is the first read made after that delay.
  The last part says the same of every byte other than 0 that \<open>retrieveByte\<close> returns.
\<close>

theorem retrieveByte_eight_cells:
  "(cells GPIO 8 w = Some (ls, w') \<longrightarrow>
      (\<exists>b stamps. retrieveByte GPIO w = Some (b, w') \<and> unat b = msb_first ls \<and>
         length stamps = 8 \<and> ls = map (\<lambda>(r, t). line w r) stamps \<and>
         log w' = rev (map (\<lambda>(r, t). At r t (DelayMicroseconds 30)) stamps) @ log w)) \<and>
   (k < 8 \<and> cells GPIO k w = Some (ls, w1) \<and> bitCell GPIO w1 = Some (None, w2) \<longrightarrow>
      retrieveByte GPIO w = Some (0, w2)) \<and>
   (retrieveByte GPIO w = Some (b, w') \<and> b \<noteq> 0 \<longrightarrow>
      (\<exists>stamps. length stamps = 8 \<and>
         unat b = msb_first (map (\<lambda>(r, t). line w r) stamps) \<and>
         log w' = rev (map (\<lambda>(r, t). At r t (DelayMicroseconds 30)) stamps) @ log w))"
proof (intro conjI impI)
  assume c: "cells GPIO 8 w = Some (ls, w')"
  from cells_stamps [OF c] obtain stamps where "length stamps = 8"
    "ls = map (\<lambda>(r, t). line w r) stamps"
    "log w' = rev (map (\<lambda>(r, t). At r t (DelayMicroseconds 30)) stamps) @ log w"
    by blast
  with retrieveByte_cells [OF c]
  show "\<exists>b stamps. retrieveByte GPIO w = Some (b, w') \<and> unat b = msb_first ls \<and>
         length stamps = 8 \<and> ls = map (\<lambda>(r, t). line w r) stamps \<and>
         log w' = rev (map (\<lambda>(r, t). At r t (DelayMicroseconds 30)) stamps) @ log w"
    by blast
next
  assume "k < 8 \<and> cells GPIO k w = Some (ls, w1) \<and> bitCell GPIO w1 = Some (None, w2)"
  then show "retrieveByte GPIO w = Some (0, w2)"
    using retrieveByte_abort by blast
next
  assume a: "retrieveByte GPIO w = Some (b, w') \<and> b \<noteq> 0"
  with retrieveByte_nonzero [of GPIO w b w'] obtain ls' where c: "cells GPIO 8 w = Some (ls', w')"
    and u: "unat b = msb_first ls'" by blast
  from cells_stamps [OF c] obtain stamps where "length stamps = 8"
    "ls' = map (\<lambda>(r, t). line w r) stamps"
    "log w' = rev (map (\<lambda>(r, t). At r t (DelayMicroseconds 30)) stamps) @ log w"
    by blast
  with u show "\<exists>stamps. length stamps = 8 \<and>
         unat b = msb_first (map (\<lambda>(r, t). line w r) stamps) \<and>
         log w' = rev (map (\<lambda>(r, t). At r t (DelayMicroseconds 30)) stamps) @ log w"
    by blast
qed

theorem retrieveByte_eight_cells_witness:
  "cells 7 8 (world_at sensor_line sensor_clock 26 19 SCHED_FIFO []) =
     Some ([HIGH, LOW, LOW, LOW, HIGH, HIGH, LOW, LOW],
           world_at sensor_line sensor_clock 50 35 SCHED_FIFO (byte_log 26 19 [])) \<and>
   (\<exists>b stamps. retrieveByte 7 (world_at sensor_line sensor_clock 26 19 SCHED_FIFO []) =
          Some (b, world_at sensor_line sensor_clock 50 35 SCHED_FIFO (byte_log 26 19 [])) \<and>
        unat b = 140 \<and> length stamps = 8 \<and>
        [HIGH, LOW, LOW, LOW, HIGH, HIGH, LOW, LOW] = map (\<lambda>(r, t). sensor_line r) stamps \<and>
        byte_log 26 19 [] = rev (map (\<lambda>(r, t). At r t (DelayMicroseconds 30)) stamps)) \<and>
   cells 7 2 abort_world =
     Some ([HIGH, LOW],
           world_at abort_line slow_clock 6 4 SCHED_OTHER
             [At 5 4 (DelayMicroseconds 30), At 2 2 (DelayMicroseconds 30)]) \<and>
   bitCell 7 (world_at abort_line slow_clock 6 4 SCHED_OTHER
       [At 5 4 (DelayMicroseconds 30), At 2 2 (DelayMicroseconds 30)]) =
     Some (None,
           world_at abort_line slow_clock 7 6 SCHED_OTHER
             [At 5 4 (DelayMicroseconds 30), At 2 2 (DelayMicroseconds 30)]) \<and>
   retrieveByte 7 abort_world =
     Some (0, world_at abort_line slow_clock 7 6 SCHED_OTHER
       [At 5 4 (DelayMicroseconds 30), At 2 2 (DelayMicroseconds 30)]) \<and>
   retrieveByte 7 (world_at sensor_line sensor_clock 26 19 SCHED_FIFO []) =
     Some (0x8C, world_at sensor_line sensor_clock 50 35 SCHED_FIFO (byte_log 26 19 [])) \<and>
   (\<exists>stamps. length stamps = 8 \<and>
      unat (0x8C :: uint8_t) = msb_first (map (\<lambda>(r, t). sensor_line r) stamps) \<and>
      byte_log 26 19 [] = rev (map (\<lambda>(r, t). At r t (DelayMicroseconds 30)) stamps))"
proof -
  let ?S = "world_at sensor_line sensor_clock 26 19 SCHED_FIFO []"
  let ?S' = "world_at sensor_line sensor_clock 50 35 SCHED_FIFO (byte_log 26 19 [])"
  let ?A = "world_at abort_line slow_clock 6 4 SCHED_OTHER
      [At 5 4 (DelayMicroseconds 30), At 2 2 (DelayMicroseconds 30)]"
  let ?B = "world_at abort_line slow_clock 7 6 SCHED_OTHER
      [At 5 4 (DelayMicroseconds 30), At 2 2 (DelayMicroseconds 30)]"
  have c: "cells 7 2 abort_world = Some ([HIGH, LOW], ?A)"
    by (simp add: abort_world_def cells_numeral bitCell_prompt abort_line_def)
      (simp add: world_at_def)
  have b: "bitCell 7 ?A = Some (None, ?B)"
    by (simp add: bitCell_stuck abort_line_def slow_clock_def timeradd_def timercmp_gt_def)
  have k: "(2 :: nat) < 8" by simp
  have m: "msb_first [HIGH, LOW, LOW, LOW, HIGH, HIGH, LOW, LOW] = 140" by simp
  have s: "cells 7 8 ?S = Some ([HIGH, LOW, LOW, LOW, HIGH, HIGH, LOW, LOW], ?S')"
    by (rule sensor_cells1)
  have r: "retrieveByte 7 ?S = Some (0x8C, ?S')"
    by (rule sensor_byte1)
  have z: "(0x8C :: uint8_t) \<noteq> 0" by simp
  note th = retrieveByte_eight_cells
  from th [where GPIO = 7 and w = abort_world and ls = "[HIGH, LOW]"
      and k = 2 and ?w1.0 = ?A and ?w2.0 = ?B, THEN conjunct2, THEN conjunct1] k c b
  have one: "retrieveByte 7 abort_world = Some (0, ?B)" by blast
  from th [where GPIO = 7 and w = ?S and ls = "[HIGH, LOW, LOW, LOW, HIGH, HIGH, LOW, LOW]"
      and w' = ?S', THEN conjunct1] s m
  have two: "\<exists>b stamps. retrieveByte 7 ?S = Some (b, ?S') \<and> unat b = 140 \<and> length stamps = 8 \<and>
        [HIGH, LOW, LOW, LOW, HIGH, HIGH, LOW, LOW] = map (\<lambda>(r, t). sensor_line r) stamps \<and>
        byte_log 26 19 [] = rev (map (\<lambda>(r, t). At r t (DelayMicroseconds 30)) stamps)"
    by simp
  from th [where GPIO = 7 and w = ?S and b = "0x8C" and w' = ?S', THEN conjunct2, THEN conjunct2] r z
  have three: "\<exists>stamps. length stamps = 8 \<and>
      unat (0x8C :: uint8_t) = msb_first (map (\<lambda>(r, t). sensor_line r) stamps) \<and>
      byte_log 26 19 [] = rev (map (\<lambda>(r, t). At r t (DelayMicroseconds 30)) stamps)"
    by simp
  from s two c b one r three show ?thesis
    by (intro conjI)
qed

subsection \<open>The timed wait\<close>

text \<open>
  Claim C10: \<open>sensorLowHighWait\<close> makes two sub-waits in order, the first while the line
  reads high and the second while it reads low, each with a deadline of 1000 microseconds
  from the clock reading that starts it. It returns success exactly when both sub-waits see
  the line change with every clock reading taken until then not past the deadline; under
  a clock that passes every deadline it returns failure otherwise.
\<close>

theorem sensorLowHighWait_two_subwaits:
  "(sensorLowHighWait GPIO w = Some (True, w') \<longleftrightarrow>
      (\<exists>n m. subwait HIGH w n \<and> subwait LOW (skip (Suc n) (Suc n) w) m \<and>
             w' = skip (n + m + 2) (n + m + 2) w)) \<and>
   (clock_unbounded w \<and>
    \<not> (\<exists>n m. subwait HIGH w n \<and> subwait LOW (skip (Suc n) (Suc n) w) m) \<longrightarrow>
      (\<exists>w1. sensorLowHighWait GPIO w = Some (False, w1)))"
proof (intro conjI impI)
  show "sensorLowHighWait GPIO w = Some (True, w') \<longleftrightarrow>
      (\<exists>n m. subwait HIGH w n \<and> subwait LOW (skip (Suc n) (Suc n) w) m \<and>
             w' = skip (n + m + 2) (n + m + 2) w)"
    by (rule sensorLowHighWait_True_iff)
next
  assume a: "clock_unbounded w \<and>
    \<not> (\<exists>n m. subwait HIGH w n \<and> subwait LOW (skip (Suc n) (Suc n) w) m)"
  then obtain ok w1 where r: "sensorLowHighWait GPIO w = Some (ok, w1)"
    using sensorLowHighWait_returns [of w GPIO] by blast
  with a have "\<not> ok"
    by (auto simp: sensorLowHighWait_True_iff)
  with r show "\<exists>w1. sensorLowHighWait GPIO w = Some (False, w1)"
    by auto
qed

theorem sensorLowHighWait_two_subwaits_witness:
  "subwait HIGH ack_world 2 \<and> subwait LOW (skip 3 3 ack_world) 1 \<and>
   sensorLowHighWait 7 ack_world = Some (True, skip 5 5 ack_world) \<and>
   clock_unbounded stuck_world \<and>
   (\<exists>w1. sensorLowHighWait 7 stuck_world = Some (False, w1))"
proof -
  have a: "subwait HIGH ack_world 2"
    by (simp add: subwait_def ack_world_def numeral_2_eq_2 polled_Suc polled_0 ack_line_def
        ack_clock_def timeradd_def timercmp_gt_def)
  have b: "subwait LOW (skip (Suc 2) (Suc 2) ack_world) 1"
    by (simp add: subwait_def ack_world_def polled_Suc polled_0 ack_line_def
        ack_clock_def timeradd_def timercmp_gt_def)
  have "skip 5 5 ack_world = skip (2 + 1 + 2) (2 + 1 + 2) ack_world"
    by simp
  with a b have "\<exists>n m. subwait HIGH ack_world n \<and> subwait LOW (skip (Suc n) (Suc n) ack_world) m \<and>
      skip 5 5 ack_world = skip (n + m + 2) (n + m + 2) ack_world"
    by blast
  with sensorLowHighWait_two_subwaits [of 7 ack_world "skip 5 5 ack_world"]
  have one: "sensorLowHighWait 7 ack_world = Some (True, skip 5 5 ack_world)"
    by blast
  have u: "clock_unbounded stuck_world"
    unfolding stuck_world_def by (rule slow_clock_unbounded)
  have "\<not> subwait HIGH stuck_world n" for n
    by (simp add: subwait_def polled_def stuck_world_def stuck_line_def)
  then have "\<not> (\<exists>n m. subwait HIGH stuck_world n \<and>
      subwait LOW (skip (Suc n) (Suc n) stuck_world) m)"
    by blast
  with sensorLowHighWait_two_subwaits [of 7 stuck_world] u
  have two: "\<exists>w1. sensorLowHighWait 7 stuck_world = Some (False, w1)"
    by blast
  from a b one u two show ?thesis by simp
qed

end
